theory Spec2Isabelle
  imports Complex_Main "HOL-Library.Char_ord" "HOL-Library.List_Lexorder"
begin

section \<open>Python values, errors and small library functions\<close>

text \<open>
  The module \<^verbatim>\<open>slahmr/run_rerun_vis.py\<close> logs camera poses, body meshes and 2D skeletons
  to a rerun recording. Every \<^verbatim>\<open>raise\<close> of the Python is a value \<open>Inl e\<close> of the model;
  a normal return is \<open>Inr\<close>.
\<close>

datatype py_error =
  IndexError | KeyError | TypeError | ValueError | ZeroDivisionError | Raised string

text \<open>Values that argparse hands over for \<^verbatim>\<open>--gpus\<close>: the default \<^verbatim>\<open>[0]\<close> is an int, a
  value given on the command line is a string.\<close>

datatype pyval = PyInt int | PyStr string

text \<open>Sequential composition of fallible steps.\<close>

definition and_then :: "'e + 'a \<Rightarrow> ('a \<Rightarrow> 'e + 'b) \<Rightarrow> 'e + 'b" where
  "and_then m f = (case m of Inl e \<Rightarrow> Inl e | Inr x \<Rightarrow> f x)"

text \<open>A \<^verbatim>\<open>for\<close> loop over a list whose body may raise: the first error leaves the loop.\<close>

fun for_each :: "('i \<Rightarrow> 's \<Rightarrow> 'e + 's) \<Rightarrow> 'i list \<Rightarrow> 's \<Rightarrow> 'e + 's" where
  "for_each body [] s = Inr s"
| "for_each body (x # xs) s = (case body x s of Inl e \<Rightarrow> Inl e | Inr s' \<Rightarrow> for_each body xs s')"

text \<open>\<^verbatim>\<open>xs[i]\<close> for a non-negative index: IndexError out of range.\<close>

definition py_get :: "'a list \<Rightarrow> nat \<Rightarrow> py_error + 'a" where
  "py_get xs i = (if i < length xs then Inr (xs ! i) else Inl IndexError)"

text \<open>numpy's integer-array indexing \<^verbatim>\<open>a[ks]\<close> along the first axis.\<close>

definition fancy_index :: "'a list \<Rightarrow> nat list \<Rightarrow> py_error + 'a list" where
  "fancy_index xs ks =
     (if \<forall>k \<in> set ks. k < length xs then Inr (map (\<lambda>k. xs ! k) ks) else Inl IndexError)"

text \<open>\<^verbatim>\<open>str(n)\<close> for a non-negative int: its decimal digits.\<close>

definition digit_char :: "nat \<Rightarrow> char" where
  "digit_char d = char_of (48 + d)"

function str_nat :: "nat \<Rightarrow> string" where
  "str_nat n = (if n < 10 then [digit_char n] else str_nat (n div 10) @ [digit_char (n mod 10)])"
  by pat_completeness auto
termination
  by (relation "measure (\<lambda>n. n)") auto

declare str_nat.simps [simp del]

definition str_int :: "int \<Rightarrow> string" where
  "str_int k = (if k < 0 then CHR ''-'' # str_nat (nat (- k)) else str_nat (nat k))"

fun py_str :: "pyval \<Rightarrow> string" where
  "py_str (PyInt k) = str_int k"
| "py_str (PyStr s) = s"

text \<open>\<^verbatim>\<open>os.path.join(a, b)\<close> on POSIX, for two components.\<close>

definition path_join :: "string \<Rightarrow> string \<Rightarrow> string" where
  "path_join a b =
     (if b \<noteq> [] \<and> hd b = CHR ''/'' then b
      else if a = [] \<or> last a = CHR ''/'' then a @ b
      else a @ ''/'' @ b)"

section \<open>The recording sink\<close>

text \<open>
  Tensors, arrays, matrices and quaternions are opaque values of type \<open>'a\<close>; keypoints,
  intrinsics and line segments are numbers. An event is what one \<^verbatim>\<open>rr.log_*\<close> call
  sends: the entity path, the timeline key that \<^verbatim>\<open>rr.set_time_sequence\<close> last set
  (\<open>None\<close> before the first call) and the payload.
\<close>

datatype 'a payload =
    ViewCoordinates string bool
  | ImageFile string
  | Pinhole "real list list" int int
  | Rigid3 'a 'a string
  | Mesh 'a 'a 'a
  | LineSegments "(real \<times> real) list"
  | Cleared

record 'a event =
  ev_path :: string
  ev_time :: "nat option"
  ev_body :: "'a payload"

record 'a rr_state =
  cur_time :: "nat option"
  events :: "'a event list"
  saved :: "string list"

definition rr_log :: "string \<Rightarrow> 'a payload \<Rightarrow> 'a rr_state \<Rightarrow> 'a rr_state" where
  "rr_log p b st =
     st\<lparr>events := events st @ [\<lparr>ev_path = p, ev_time = cur_time st, ev_body = b\<rparr>]\<rparr>"

definition set_time_sequence :: "nat \<Rightarrow> 'a rr_state \<Rightarrow> 'a rr_state" where
  "set_time_sequence t st = st\<lparr>cur_time := Some t\<rparr>"

text \<open>Modelled from the spec: \<^verbatim>\<open>rr.init\<close> and \<^verbatim>\<open>rr.save\<close> belong to the rerun library.
  Section 4.6 says that the orchestrator initialises a fresh recording session and at the
  end persists the recording to a file; the model empties the event list and records the
  file name.\<close>

definition rr_init :: "'a rr_state \<Rightarrow> 'a rr_state" where
  "rr_init st = st\<lparr>cur_time := None, events := []\<rparr>"

definition rr_save :: "string \<Rightarrow> 'a rr_state \<Rightarrow> 'a rr_state" where
  "rr_save p st = st\<lparr>saved := saved st @ [p]\<rparr>"

section \<open>The dataset\<close>

text \<open>
  A keypoint is the triple (x, y, confidence). The record holds what the module reads from
  \<^verbatim>\<open>MultiPeopleDataset\<close> after \<^verbatim>\<open>load_data()\<close>: \<open>ds_len\<close> is \<^verbatim>\<open>len(dataset)\<close>,
  \<open>cam_t\<close>, \<open>cam_R\<close> and \<open>intrins\<close> are the entries of \<^verbatim>\<open>get_camera_data()\<close>.
\<close>

type_synonym joint = "real \<times> real \<times> real"

record ('a, 'i) dataset =
  ds_len :: nat
  seq_len :: nat
  track_ids :: "'i list"
  vis_mask :: "int list list"
  joints2d :: "joint list list list"
  sel_img_paths :: "string list"
  cam_t :: "'a list"
  cam_R :: "'a list"
  intrins :: "(real \<times> real \<times> real \<times> real) list"
  img_size :: "int \<times> int"

section \<open>The skeleton extractor\<close>

definition skeleton_ids :: "(nat \<times> nat) list" where
  "skeleton_ids =
     [(15, 13), (13, 11), (16, 14), (14, 12), (11, 12), (5, 11), (6, 12), (5, 6), (5, 7),
      (6, 8), (7, 9), (8, 10), (1, 2), (0, 1), (0, 2), (1, 3), (2, 4), (3, 5), (4, 6)]"

definition idcs :: "nat list" where
  "idcs = [0, 16, 15, 18, 17, 5, 2, 6, 3, 7, 4, 12, 9, 13, 10, 14, 11]"

definition conf :: "joint \<Rightarrow> real" where
  "conf j = snd (snd j)"

definition xy :: "joint \<Rightarrow> real \<times> real" where
  "xy j = (fst j, fst (snd j))"

text \<open>\<^verbatim>\<open>frame_joints[idcs][skeleton_ids]\<close>: the candidate segments, pairs of keypoints.\<close>

definition segments :: "joint list \<Rightarrow> py_error + (joint \<times> joint) list" where
  "segments frame_joints =
     and_then (fancy_index frame_joints idcs) (\<lambda>remapped.
     and_then (fancy_index remapped (map fst skeleton_ids)) (\<lambda>firsts.
     and_then (fancy_index remapped (map snd skeleton_ids)) (\<lambda>seconds.
     Inr (zip firsts seconds))))"

text \<open>\<^verbatim>\<open>joints[..., 2].min(axis=-1)\<close> for one segment.\<close>

definition joint_confidence :: "joint \<times> joint \<Rightarrow> real" where
  "joint_confidence seg = min (conf (fst seg)) (conf (snd seg))"

text \<open>\<^verbatim>\<open>joints[joint_confidence > 0.3, :, :2]\<close>.\<close>

definition good_joints_xy :: "(joint \<times> joint) list \<Rightarrow> ((real \<times> real) \<times> (real \<times> real)) list" where
  "good_joints_xy joints =
     map (\<lambda>seg. (xy (fst seg), xy (snd seg))) (filter (\<lambda>seg. joint_confidence seg > 3 / 10) joints)"

text \<open>\<^verbatim>\<open>good_joints_xy.reshape(-2, 2)\<close>: numpy takes the negative entry as the dimension to
  infer, so the result is the list of the endpoints, two for each segment.\<close>

definition reshape_points :: "(('p \<times> 'p)) list \<Rightarrow> 'p list" where
  "reshape_points segs = concat (map (\<lambda>seg. [fst seg, snd seg]) segs)"

definition skeleton_path :: "nat \<Rightarrow> string" where
  "skeleton_path i = ''world/camera/image/skeleton/#'' @ str_nat i"

definition log_skeleton_frame ::
  "nat \<Rightarrow> nat \<times> joint list \<Rightarrow> 'a rr_state \<Rightarrow> py_error + 'a rr_state" where
  "log_skeleton_frame i fr st =
     and_then (segments (snd fr)) (\<lambda>joints.
       let good = good_joints_xy joints;
           st1 = set_time_sequence (fst fr) st
       in if length good \<noteq> 0
          then Inr (rr_log (skeleton_path i) (LineSegments (reshape_points good)) st1)
          else Inr (rr_log (skeleton_path i) Cleared st1))"

definition log_skeleton_track ::
  "('a, 'i) dataset \<Rightarrow> nat \<times> 'i \<Rightarrow> 'a rr_state \<Rightarrow> py_error + 'a rr_state" where
  "log_skeleton_track ds tr st =
     and_then (py_get (joints2d ds) (fst tr)) (\<lambda>joints.
       for_each (log_skeleton_frame (fst tr)) (enumerate 0 joints) st)"

definition log_skeleton_2d :: "('a, 'i) dataset \<Rightarrow> 'a rr_state \<Rightarrow> py_error + 'a rr_state" where
  "log_skeleton_2d ds st = for_each (log_skeleton_track ds) (enumerate 0 (track_ids ds)) st"

section \<open>Input frames and the defining camera\<close>

definition log_input_frame :: "nat \<times> string \<Rightarrow> 'a rr_state \<Rightarrow> py_error + 'a rr_state" where
  "log_input_frame fr st =
     Inr (rr_log ''world/camera/image'' (ImageFile (snd fr)) (set_time_sequence (fst fr) st))"

definition log_input_frames :: "('a, 'i) dataset \<Rightarrow> 'a rr_state \<Rightarrow> py_error + 'a rr_state" where
  "log_input_frames ds st = for_each log_input_frame (enumerate 0 (sel_img_paths ds)) st"

text \<open>\<^verbatim>\<open>[[fx, 0, cx], [0, fy, cy], [0, 0, 1]]\<close>\<close>

definition intrinsics_matrix :: "real \<times> real \<times> real \<times> real \<Rightarrow> real list list" where
  "intrinsics_matrix k =
     (case k of (fx, fy, cx, cy) \<Rightarrow> [[fx, 0, cx], [0, fy, cy], [0, 0, 1]])"

text \<open>The body of the loop of \<^verbatim>\<open>log_camera\<close>. \<open>quat\<close> is
  \<^verbatim>\<open>transform.Rotation.from_matrix(m).as_quat()\<close> of scipy.\<close>

definition log_camera_frame ::
  "('a \<Rightarrow> 'a) \<Rightarrow> ('a, 'i) dataset \<Rightarrow> nat \<Rightarrow> 'a rr_state \<Rightarrow> py_error + 'a rr_state" where
  "log_camera_frame quat ds frame_id st =
     and_then (py_get (cam_t ds) frame_id) (\<lambda>translation.
     and_then (py_get (cam_R ds) frame_id) (\<lambda>rotation_mat.
     and_then (py_get (intrins ds) frame_id) (\<lambda>k.
       let rotation_q = quat rotation_mat;
           st1 = set_time_sequence frame_id st;
           st2 = rr_log ''world/camera/image''
                   (Pinhole (intrinsics_matrix k) (fst (img_size ds)) (snd (img_size ds))) st1
       in Inr (rr_log ''world/camera'' (Rigid3 translation rotation_q ''RDF'') st2))))"

definition log_camera ::
  "('a \<Rightarrow> 'a) \<Rightarrow> ('a, 'i) dataset \<Rightarrow> 'a rr_state \<Rightarrow> py_error + 'a rr_state" where
  "log_camera quat ds st = for_each (log_camera_frame quat ds) [0..<seq_len ds] st"

section \<open>One phase\<close>

text \<open>
  A phase result is a dict of tensors; a field is \<open>None\<close> when the key is absent, and
  reading it with \<^verbatim>\<open>d[key]\<close> raises KeyError. The camera tensors have a leading axis and
  a frame axis.
\<close>

record 'a phase_result =
  pr_trans :: "'a option"
  pr_root_orient :: "'a option"
  pr_pose_body :: "'a option"
  pr_betas :: "'a option"
  pr_cam_t :: "'a list list option"
  pr_cam_R :: "'a list list option"

definition dict_get :: "'v option \<Rightarrow> py_error + 'v" where
  "dict_get v = (case v of None \<Rightarrow> Inl KeyError | Some x \<Rightarrow> Inr x)"

text \<open>\<^verbatim>\<open>t[a, b]\<close> on a tensor with two leading axes.\<close>

definition index2 :: "'a list list \<Rightarrow> nat \<Rightarrow> nat \<Rightarrow> py_error + 'a" where
  "index2 t a b = and_then (py_get t a) (\<lambda>row. py_get row b)"

text \<open>
  What the module calls and this file does not define: scipy's quaternion conversion,
  trimesh's vertex normals, the SMPL body model, the file system, the snapshot store and
  the configuration and dataset loaders. Each is a field of the environment; the ones that
  can raise return a sum.
\<close>

record ('a, 'c, 'i) env =
  as_quat :: "'a \<Rightarrow> 'a"
  vertex_normals :: "'a \<Rightarrow> 'a \<Rightarrow> 'a"
  load_smpl_body_model :: "'c \<Rightarrow> nat \<Rightarrow> pyval \<Rightarrow> py_error + 'a"
  run_smpl :: "'a \<Rightarrow> 'a \<Rightarrow> 'a \<Rightarrow> 'a \<Rightarrow> 'a option \<Rightarrow> py_error + ('a list list \<times> 'a)"
  isdir :: "string \<Rightarrow> bool"
  get_results_paths :: "string \<Rightarrow> py_error + (string \<times> string) list"
  load_result :: "string \<Rightarrow> py_error + (string \<times> 'a phase_result) list"
  get_input_dict :: "('a, 'i) dataset \<Rightarrow> py_error + 'a phase_result"
  load_config_from_log :: "string \<Rightarrow> py_error + 'c"
  expand_source_paths :: "'c \<Rightarrow> py_error + 'c"
  repr_sources :: "'c \<Rightarrow> string"
  get_dataset_from_cfg :: "'c \<Rightarrow> py_error + ('a, 'i) dataset"
  walk :: "string \<Rightarrow> (string \<times> string list \<times> string list) list"
  makedirs :: "string \<Rightarrow> py_error + unit"

definition phase_path :: "string \<Rightarrow> nat \<Rightarrow> string" where
  "phase_path phase i = ''world/phase_'' @ phase @ ''/#'' @ str_nat i"

text \<open>The body of the inner loop of \<^verbatim>\<open>log_phase_result\<close>: the visibility gate.\<close>

definition log_track_mesh ::
  "('a, 'c, 'i) env \<Rightarrow> ('a, 'i) dataset \<Rightarrow> string \<Rightarrow> 'a list list \<Rightarrow> 'a \<Rightarrow> nat \<Rightarrow>
   nat \<times> 'i \<Rightarrow> 'a rr_state \<Rightarrow> py_error + 'a rr_state" where
  "log_track_mesh E ds phase vertices faces frame_id tr st =
     and_then (index2 (vis_mask ds) (fst tr) frame_id) (\<lambda>code.
       if code \<ge> 0 then
         and_then (index2 vertices (fst tr) frame_id) (\<lambda>v.
           let vertex_normals = vertex_normals E v faces
           in and_then (index2 vertices (fst tr) frame_id) (\<lambda>v'.
                Inr (rr_log (phase_path phase (fst tr)) (Mesh v' faces vertex_normals) st)))
       else Inr (rr_log (phase_path phase (fst tr)) Cleared st))"

text \<open>The body of the outer loop.\<close>

definition log_phase_frame ::
  "('a, 'c, 'i) env \<Rightarrow> ('a, 'i) dataset \<Rightarrow> string \<Rightarrow> 'a phase_result \<Rightarrow> 'a list list \<Rightarrow> 'a \<Rightarrow>
   nat \<Rightarrow> 'a rr_state \<Rightarrow> py_error + 'a rr_state" where
  "log_phase_frame E ds phase phase_result vertices faces frame_id st =
     (let st1 = set_time_sequence frame_id st in
      and_then (dict_get (pr_cam_t phase_result)) (\<lambda>ct.
      and_then (index2 ct 1 frame_id) (\<lambda>translation.
      and_then (dict_get (pr_cam_R phase_result)) (\<lambda>cr.
      and_then (index2 cr 1 frame_id) (\<lambda>rotation_mat.
        let rotation_q = as_quat E rotation_mat;
            st2 = rr_log ''world/camera'' (Rigid3 translation rotation_q ''RDF'') st1
        in for_each (log_track_mesh E ds phase vertices faces frame_id)
             (enumerate 0 (track_ids ds)) st2)))))"

definition log_phase_result ::
  "('a, 'c, 'i) env \<Rightarrow> 'c \<Rightarrow> ('a, 'i) dataset \<Rightarrow> pyval \<Rightarrow> string \<Rightarrow> 'a phase_result \<Rightarrow>
   'a rr_state \<Rightarrow> py_error + 'a rr_state" where
  "log_phase_result E cfg ds dev_id phase phase_result st =
     (let B = ds_len ds; num_frames = seq_len ds in
      and_then (load_smpl_body_model E cfg (B * num_frames) dev_id) (\<lambda>body_model.
      and_then (dict_get (pr_trans phase_result)) (\<lambda>trans.
      and_then (dict_get (pr_root_orient phase_result)) (\<lambda>root_orient.
      and_then (dict_get (pr_pose_body phase_result)) (\<lambda>pose_body.
      and_then (run_smpl E body_model trans root_orient pose_body (pr_betas phase_result))
        (\<lambda>world_smpl.
           for_each (log_phase_frame E ds phase phase_result (fst world_smpl) (snd world_smpl))
             [0..<num_frames] st))))))"

section \<open>The phase resolver and the orchestrator of one run\<close>

text \<open>A process: the recording, what was printed, and the environment variables.\<close>

record 'a proc =
  rr :: "'a rr_state"
  stdout :: "string list"
  environ :: "(string \<times> string) list"

definition print :: "string \<Rightarrow> 'a proc \<Rightarrow> 'a proc" where
  "print line p = p\<lparr>stdout := stdout p @ [line]\<rparr>"

text \<open>Runs a logger on the recording of the process.\<close>

definition on_rr :: "('a rr_state \<Rightarrow> py_error + 'a rr_state) \<Rightarrow> 'a proc \<Rightarrow> py_error + 'a proc" where
  "on_rr f p = and_then (f (rr p)) (\<lambda>r. Inr (p\<lparr>rr := r\<rparr>))"

text \<open>\<^verbatim>\<open>sorted(d.keys())[-1]\<close>: IndexError when the dict is empty.\<close>

definition last_key :: "(string \<times> 'v) list \<Rightarrow> py_error + string" where
  "last_key d = (let ks = sort (map fst d) in if ks = [] then Inl IndexError else Inr (last ks))"

definition dict_lookup :: "('k \<times> 'v) list \<Rightarrow> 'k \<Rightarrow> py_error + 'v" where
  "dict_lookup d k = dict_get (map_of d k)"

text \<open>The \<^verbatim>\<open>elif os.path.isdir(phase_dir)\<close> branch: the snapshot of the last iteration.\<close>

definition load_last_result :: "('a, 'c, 'i) env \<Rightarrow> string \<Rightarrow> py_error + 'a phase_result" where
  "load_last_result E phase_dir =
     and_then (get_results_paths E phase_dir) (\<lambda>res_path_dict.
     and_then (last_key res_path_dict) (\<lambda>it.
     and_then (dict_lookup res_path_dict it) (\<lambda>p.
     and_then (load_result E p) (\<lambda>blocks. dict_lookup blocks ''world''))))"

text \<open>The body of \<^verbatim>\<open>for phase in phases\<close>; \<^verbatim>\<open>continue\<close> is the normal return of the body.\<close>

definition log_phase ::
  "('a, 'c, 'i) env \<Rightarrow> 'c \<Rightarrow> ('a, 'i) dataset \<Rightarrow> string \<Rightarrow> pyval \<Rightarrow> string \<Rightarrow>
   'a proc \<Rightarrow> py_error + 'a proc" where
  "log_phase E cfg ds log_dir dev_id phase p =
     (let phase_dir = path_join log_dir phase in
      if phase = ''input'' then
        and_then (get_input_dict E ds) (\<lambda>res.
          on_rr (log_phase_result E cfg ds dev_id phase res) p)
      else if isdir E phase_dir then
        and_then (load_last_result E phase_dir) (\<lambda>res.
          on_rr (log_phase_result E cfg ds dev_id phase res) p)
      else Inr (print (phase_dir @ '' does not exist, skipping'') p))"

definition log_view_coordinates :: "'a rr_state \<Rightarrow> 'a rr_state" where
  "log_view_coordinates st =
     st\<lparr>events := events st @
        [\<lparr>ev_path = ''world'', ev_time = None, ev_body = ViewCoordinates ''-Y'' True\<rparr>]\<rparr>"

definition log_to_rerun ::
  "('a, 'c, 'i) env \<Rightarrow> 'c \<Rightarrow> ('a, 'i) dataset \<Rightarrow> string \<Rightarrow> pyval \<Rightarrow> string list \<Rightarrow>
   'a proc \<Rightarrow> py_error + 'a proc" where
  "log_to_rerun E cfg ds log_dir dev_id phases p =
     (let p1 = p\<lparr>rr := log_view_coordinates (rr_init (rr p))\<rparr> in
      and_then (on_rr (log_input_frames ds) p1) (\<lambda>p2.
      and_then (on_rr (log_skeleton_2d ds) p2) (\<lambda>p3.
      and_then (on_rr (log_camera (as_quat E) ds) p3) (\<lambda>p4.
        for_each (log_phase E cfg ds log_dir dev_id) phases p4))))"

definition log_to_rrd ::
  "('a, 'c, 'i) env \<Rightarrow> string \<Rightarrow> pyval \<Rightarrow> string list \<Rightarrow> string option \<Rightarrow>
   'a proc \<Rightarrow> py_error + 'a proc" where
  "log_to_rrd E log_dir dev_id phases save_dir p =
     (let p1 = print log_dir p in
      and_then (load_config_from_log E log_dir) (\<lambda>cfg0.
      and_then (expand_source_paths E cfg0) (\<lambda>cfg.
        let p2 = print (''SOURCES '' @ repr_sources E cfg) p1 in
        and_then (get_dataset_from_cfg E cfg) (\<lambda>ds.
          if ds_len ds < 1 then Inr (print ''No tracks in dataset, skipping'' p2)
          else
            and_then (log_to_rerun E cfg ds log_dir dev_id phases p2) (\<lambda>p3.
              case save_dir of
                None \<Rightarrow> Inl TypeError
              | Some d \<Rightarrow> Inr (p3\<lparr>rr := rr_save (path_join d ''log.rrd'') (rr p3)\<rparr>))))))"

section \<open>The batch launcher\<close>

text \<open>\<^verbatim>\<open>s.split(sep)\<close>: ValueError for the empty separator; otherwise the pieces between
  the occurrences of \<open>sep\<close>, found from the left without overlap.\<close>

function split_from :: "string \<Rightarrow> string \<Rightarrow> string \<Rightarrow> string list" where
  "split_from sep cur s =
     (if s = [] then [cur]
      else if sep \<noteq> [] \<and> take (length sep) s = sep
           then cur # split_from sep [] (drop (length sep) s)
      else split_from sep (cur @ [hd s]) (tl s))"
  by pat_completeness auto
termination
  by (relation "measure (\<lambda>(sep, cur, s). length s)") auto

declare split_from.simps [simp del]

definition py_split :: "string \<Rightarrow> string \<Rightarrow> py_error + string list" where
  "py_split s sep = (if sep = [] then Inl ValueError else Inr (split_from sep [] s))"

text \<open>\<^verbatim>\<open>s.strip("/")\<close>\<close>

definition strip_slash :: "string \<Rightarrow> string" where
  "strip_slash s =
     rev (dropWhile (\<lambda>c. c = CHR ''/'') (rev (dropWhile (\<lambda>c. c = CHR ''/'') s)))"

text \<open>\<^verbatim>\<open>sep.join(parts)\<close>\<close>

fun str_join :: "string \<Rightarrow> string list \<Rightarrow> string" where
  "str_join sep [] = []"
| "str_join sep [x] = x"
| "str_join sep (x # y # ys) = x @ sep @ str_join sep (y # ys)"

text \<open>\<^verbatim>\<open>os.environ[k] = v\<close>\<close>

definition setenv :: "string \<Rightarrow> string \<Rightarrow> (string \<times> string) list \<Rightarrow> (string \<times> string) list" where
  "setenv k v e = (k, v) # filter (\<lambda>kv. fst kv \<noteq> k) e"

record args =
  log_root :: string
  save_root :: "string option"
  phases :: "string list"
  gpus :: "pyval list"
  log_dirs :: "string list"

text \<open>\<^verbatim>\<open>"-".join(log_dir.split(args.log_root)[-1].strip("/").split("/")[:2])\<close>\<close>

definition exp_name :: "string \<Rightarrow> string \<Rightarrow> py_error + string" where
  "exp_name log_dir sep =
     and_then (py_split log_dir sep) (\<lambda>parts.
       let path_name = strip_slash (last parts)
       in Inr (str_join ''-'' (take 2 (split_from ''/'' [] path_name))))"

definition launch_rerun_vis ::
  "('a, 'c, 'i) env \<Rightarrow> args \<Rightarrow> nat \<Rightarrow> 'a proc \<Rightarrow> py_error + 'a proc" where
  "launch_rerun_vis E args i p =
     and_then (py_get (log_dirs args) i) (\<lambda>log_dir.
       if length (gpus args) = 0 then Inl ZeroDivisionError
       else
         and_then (py_get (gpus args) (i mod length (gpus args))) (\<lambda>dev_id.
           let p1 = p\<lparr>environ := setenv ''EGL_DEVICE_ID'' (py_str dev_id) (environ p)\<rparr>;
               p2 = p1\<lparr>environ := setenv ''PYOPENGL_PLATFORM'' ''egl'' (environ p1)\<rparr>
           in and_then (exp_name log_dir (log_root args)) (\<lambda>name.
                let save_dir = (case save_root args of
                                  Some r \<Rightarrow> r @ ''/'' @ name
                                | None \<Rightarrow> log_dir)
                in and_then (makedirs E save_dir) (\<lambda>u.
                     log_to_rrd E log_dir dev_id (phases args) (Some save_dir) p2))))"

text \<open>The directories that \<^verbatim>\<open>os.walk\<close> yields with \<^verbatim>\<open>.hydra\<close> among their subdirectories.\<close>

definition discover :: "('a, 'c, 'i) env \<Rightarrow> string \<Rightarrow> string list" where
  "discover E d = map fst (filter (\<lambda>w. ''.hydra'' \<in> set (fst (snd w))) (walk E d))"

text \<open>
  What \<^verbatim>\<open>main\<close> does with the runs: either it hands the worker function and the tasks
  \<^verbatim>\<open>(i, args)\<close> to \<^verbatim>\<open>Pool(processes=n).starmap(launch_rerun_vis, tasks)\<close>, or it runs them
  itself in a loop. The pool call is described by the number of processes, the worker
  function, which \<^verbatim>\<open>starmap\<close> applies to each task, the tasks, and the state of the parent
  process. How the pool distributes the tasks over its processes belongs to the
  multiprocessing library and is not modelled: a task is run by the worker on the state of
  whichever worker process takes it.
\<close>

datatype 'a dispatch =
    Pool_starmap nat "nat \<times> args \<Rightarrow> 'a proc \<Rightarrow> py_error + 'a proc" "(nat \<times> args) list" "'a proc"
  | In_process "py_error + 'a proc"

definition main :: "('a, 'c, 'i) env \<Rightarrow> args \<Rightarrow> 'a proc \<Rightarrow> 'a dispatch" where
  "main E args0 p =
     (let args = args0\<lparr>log_dirs := discover E (log_root args0)\<rparr>;
          p1 = print (''FOUND '' @ str_nat (length (log_dirs args)) @ '' TO RENDER'') p
      in if length (gpus args) > 1
         then Pool_starmap (length (gpus args))
                (\<lambda>task. launch_rerun_vis E (snd task) (fst task))
                (map (\<lambda>i. (i, args)) [0..<length (log_dirs args)]) p1
         else In_process (for_each (launch_rerun_vis E args) [0..<length (log_dirs args)] p1))"

section \<open>Vocabulary of the statements\<close>

text \<open>The events that a logger added to the recording.\<close>

definition new_events :: "'a rr_state \<Rightarrow> 'a rr_state \<Rightarrow> 'a event list" where
  "new_events st st' = drop (length (events st)) (events st')"

text \<open>The events of one entity path at one timeline key, in the order of logging.\<close>

definition at_key :: "string \<Rightarrow> nat \<Rightarrow> 'a event list \<Rightarrow> 'a event list" where
  "at_key p t evs = filter (\<lambda>e. ev_path e = p \<and> ev_time e = Some t) evs"

text \<open>What a viewer shows for a path at a key: the payload logged last there.\<close>

definition latest :: "string \<Rightarrow> nat \<Rightarrow> 'a event list \<Rightarrow> 'a payload option" where
  "latest p t evs = (if at_key p t evs = [] then None else Some (ev_body (last (at_key p t evs))))"

fun is_rigid3 :: "'a payload \<Rightarrow> bool" where
  "is_rigid3 (Rigid3 t q x) = True"
| "is_rigid3 b = False"

text \<open>Mesh and skeleton events: geometry, or the clear that stands for it.\<close>

fun is_geometry :: "'a payload \<Rightarrow> bool" where
  "is_geometry (Mesh v f n) = True"
| "is_geometry (LineSegments ps) = True"
| "is_geometry Cleared = True"
| "is_geometry b = False"

text \<open>No camera pose event comes after a mesh or skeleton event of the same key.\<close>

fun pose_before_geometry :: "'a event list \<Rightarrow> bool" where
  "pose_before_geometry [] = True"
| "pose_before_geometry (e # es) =
     ((is_geometry (ev_body e) \<longrightarrow>
         \<not> (\<exists>e' \<in> set es. is_rigid3 (ev_body e') \<and> ev_time e' = ev_time e))
      \<and> pose_before_geometry es)"

definition timeline_keys :: "'a event list \<Rightarrow> nat list" where
  "timeline_keys evs = List.map_filter ev_time evs"

definition keys_increasing :: "'a event list \<Rightarrow> bool" where
  "keys_increasing evs = sorted (timeline_keys evs)"

text \<open>
  The events that one pass of \<^verbatim>\<open>log_phase_result\<close> is expected to send, written without
  the recording state: for each frame the camera pose read at leading index 1, then one
  event for each track, a mesh or a clear according to the visibility code. \<open>verts\<close> and
  \<open>faces\<close> are what the body model returned.
\<close>

definition camera_event :: "('a, 'c, 'i) env \<Rightarrow> 'a phase_result \<Rightarrow> nat \<Rightarrow> 'a event" where
  "camera_event E res f =
     \<lparr>ev_path = ''world/camera'', ev_time = Some f,
      ev_body = Rigid3 (the (pr_cam_t res) ! 1 ! f) (as_quat E (the (pr_cam_R res) ! 1 ! f)) ''RDF''\<rparr>"

definition mesh_event ::
  "('a, 'c, 'i) env \<Rightarrow> ('a, 'i) dataset \<Rightarrow> string \<Rightarrow> 'a list list \<Rightarrow> 'a \<Rightarrow> nat \<Rightarrow> nat \<Rightarrow> 'a event" where
  "mesh_event E ds phase verts faces f i =
     \<lparr>ev_path = phase_path phase i, ev_time = Some f,
      ev_body = (if vis_mask ds ! i ! f \<ge> 0
                 then Mesh (verts ! i ! f) faces (vertex_normals E (verts ! i ! f) faces)
                 else Cleared)\<rparr>"

definition frame_events ::
  "('a, 'c, 'i) env \<Rightarrow> ('a, 'i) dataset \<Rightarrow> string \<Rightarrow> 'a phase_result \<Rightarrow> 'a list list \<Rightarrow> 'a \<Rightarrow>
   nat \<Rightarrow> 'a event list" where
  "frame_events E ds phase res verts faces f =
     camera_event E res f # map (mesh_event E ds phase verts faces f) [0..<length (track_ids ds)]"

definition phase_events ::
  "('a, 'c, 'i) env \<Rightarrow> ('a, 'i) dataset \<Rightarrow> string \<Rightarrow> 'a phase_result \<Rightarrow> 'a list list \<Rightarrow> 'a \<Rightarrow>
   'a event list" where
  "phase_events E ds phase res verts faces =
     concat (map (frame_events E ds phase res verts faces) [0..<seq_len ds])"

text \<open>The event that \<^verbatim>\<open>log_skeleton_2d\<close> is expected to send for one track and frame.\<close>

definition skeleton_event :: "nat \<Rightarrow> nat \<Rightarrow> (joint \<times> joint) list \<Rightarrow> 'a event" where
  "skeleton_event i f segs =
     \<lparr>ev_path = skeleton_path i, ev_time = Some f,
      ev_body = (if good_joints_xy segs = [] then Cleared
                 else LineSegments (reshape_points (good_joints_xy segs)))\<rparr>"

text \<open>The two events that \<^verbatim>\<open>log_camera\<close> is expected to send for one frame.\<close>

definition defining_camera_events :: "('a \<Rightarrow> 'a) \<Rightarrow> ('a, 'i) dataset \<Rightarrow> nat \<Rightarrow> 'a event list" where
  "defining_camera_events quat ds f =
     [\<lparr>ev_path = ''world/camera/image'', ev_time = Some f,
       ev_body = Pinhole (intrinsics_matrix (intrins ds ! f)) (fst (img_size ds)) (snd (img_size ds))\<rparr>,
      \<lparr>ev_path = ''world/camera'', ev_time = Some f,
       ev_body = Rigid3 (cam_t ds ! f) (quat (cam_R ds ! f)) ''RDF''\<rparr>]"

text \<open>The events that \<^verbatim>\<open>log_skeleton_2d\<close> is expected to send for one track, frame by
  frame; \<open>projr\<close> reads the segments of a frame whose remapping succeeded.\<close>

definition track_skeleton_events :: "('a, 'i) dataset \<Rightarrow> nat \<Rightarrow> 'a event list" where
  "track_skeleton_events ds i =
     map (\<lambda>f. skeleton_event i f (projr (segments (joints2d ds ! i ! f))))
       [0..<length (joints2d ds ! i)]"

text \<open>The events that \<^verbatim>\<open>log_to_rerun\<close> is expected to send before it turns to the phases:
  the view coordinates, the input frames, the skeletons of all tracks, the defining camera.\<close>

definition view_event :: "'a event" where
  "view_event = \<lparr>ev_path = ''world'', ev_time = None, ev_body = ViewCoordinates ''-Y'' True\<rparr>"

definition input_events :: "('a, 'i) dataset \<Rightarrow> 'a event list" where
  "input_events ds =
     map (\<lambda>f. \<lparr>ev_path = ''world/camera/image'', ev_time = Some f,
                ev_body = ImageFile (sel_img_paths ds ! f)\<rparr>)
       [0..<length (sel_img_paths ds)]"

definition prelude_events :: "('a \<Rightarrow> 'a) \<Rightarrow> ('a, 'i) dataset \<Rightarrow> 'a event list" where
  "prelude_events quat ds =
     view_event # input_events ds
       @ concat (map (track_skeleton_events ds) [0..<length (track_ids ds)])
       @ concat (map (defining_camera_events quat ds) [0..<seq_len ds])"

text \<open>What the pool makes of its task number \<open>k\<close> in a worker process whose state is \<open>w\<close>:
  \<^verbatim>\<open>starmap\<close> calls the worker function on the task. \<open>None\<close> when there is no pool or no
  such task.\<close>

definition task_result :: "'a dispatch \<Rightarrow> nat \<Rightarrow> 'a proc \<Rightarrow> (py_error + 'a proc) option" where
  "task_result d k w =
     (case d of
        Pool_starmap n worker tasks p \<Rightarrow>
          if k < length tasks then Some (worker (tasks ! k) w) else None
      | In_process r \<Rightarrow> None)"

definition pool_size :: "'a dispatch \<Rightarrow> nat option" where
  "pool_size d = (case d of Pool_starmap n worker tasks p \<Rightarrow> Some n | In_process r \<Rightarrow> None)"

text \<open>The diagnostic that the orchestrator prints for a phase whose directory is absent,
  and whether a phase name is one that the orchestrator skips.\<close>

definition skip_message :: "string \<Rightarrow> string \<Rightarrow> string" where
  "skip_message log_dir phase = path_join log_dir phase @ '' does not exist, skipping''"

definition is_skipped :: "('a, 'c, 'i) env \<Rightarrow> string \<Rightarrow> string \<Rightarrow> bool" where
  "is_skipped E log_dir phase \<longleftrightarrow> phase \<noteq> ''input'' \<and> \<not> isdir E (path_join log_dir phase)"

section \<open>Example inputs\<close>

text \<open>A frame of 19 keypoints; keypoint 0 has confidence exactly 0.3, the others 0.5.\<close>

definition ex_frame :: "joint list" where
  "ex_frame =
     [(0, 0, 3 / 10), (1, 0, 1 / 2), (2, 0, 1 / 2), (3, 0, 1 / 2), (4, 0, 1 / 2),
      (5, 0, 1 / 2), (6, 0, 1 / 2), (7, 0, 1 / 2), (8, 0, 1 / 2), (9, 0, 1 / 2),
      (10, 0, 1 / 2), (11, 0, 1 / 2), (12, 0, 1 / 2), (13, 0, 1 / 2), (14, 0, 1 / 2),
      (15, 0, 1 / 2), (16, 0, 1 / 2), (17, 0, 1 / 2), (18, 0, 1 / 2)]"

definition ex_segs :: "(joint \<times> joint) list" where
  "ex_segs = map (\<lambda>e. (ex_frame ! (idcs ! fst e), ex_frame ! (idcs ! snd e))) skeleton_ids"

text \<open>A frame of 19 keypoints without any confidence.\<close>

definition ex_blank :: "joint list" where
  "ex_blank = replicate 19 (0, 0, 0)"

text \<open>The scenario of Section 8 of the specification: two tracks, three frames, the
  visibility mask \<^verbatim>\<open>[[1,-1,0],[-1,1,1]]\<close>. Opaque values are natural numbers. Track 1 has
  no visible keypoint in any frame.\<close>

definition ex_ds :: "(nat, nat) dataset" where
  "ex_ds = \<lparr>ds_len = 2, seq_len = 3, track_ids = [7, 9],
            vis_mask = [[1, -1, 0], [-1, 1, 1]],
            joints2d = [[ex_frame, ex_frame, ex_frame], [ex_blank, ex_blank, ex_blank]],
            sel_img_paths = [''0.jpg'', ''1.jpg'', ''2.jpg''],
            cam_t = [10, 11, 12], cam_R = [20, 21, 22],
            intrins = [(500, 500, 320, 240), (500, 500, 320, 240), (500, 500, 320, 240)],
            img_size = (640, 480)\<rparr>"

definition ex_res :: "nat phase_result" where
  "ex_res = \<lparr>pr_trans = Some 1, pr_root_orient = Some 2, pr_pose_body = Some 3,
             pr_betas = None,
             pr_cam_t = Some [[100, 101, 102], [110, 111, 112]],
             pr_cam_R = Some [[200, 201, 202], [210, 211, 212]]\<rparr>"

text \<open>What the synthetic "input" phase yields in the example; its camera differs from the
  one of the snapshot.\<close>

definition ex_res_input :: "nat phase_result" where
  "ex_res_input = \<lparr>pr_trans = Some 1, pr_root_orient = Some 2, pr_pose_body = Some 3,
             pr_betas = None,
             pr_cam_t = Some [[40, 41, 42], [50, 51, 52]],
             pr_cam_R = Some [[60, 61, 62], [70, 71, 72]]\<rparr>"

definition ex_env :: "(nat, unit, nat) env" where
  "ex_env = \<lparr>as_quat = (\<lambda>m. m + 1000),
             vertex_normals = (\<lambda>v f. v + f),
             load_smpl_body_model = (\<lambda>c n d. Inr 4),
             run_smpl = (\<lambda>b t r p s. Inr ([[300, 301, 302], [310, 311, 312]], 5)),
             isdir = (\<lambda>d. d = ''logs/run/motion_chunks''),
             get_results_paths =
               (\<lambda>d. Inr [(''000010'', ''a.pkl''), (''000050'', ''b.pkl''), (''000005'', ''c.pkl'')]),
             load_result =
               (\<lambda>f. if f = ''b.pkl'' then Inr [(''world'', ex_res)] else Inl (Raised ''unreadable'')),
             get_input_dict = (\<lambda>d. Inr ex_res_input),
             load_config_from_log = (\<lambda>d. Inr ()),
             expand_source_paths = (\<lambda>c. Inr c),
             repr_sources = (\<lambda>c. ''[]''),
             get_dataset_from_cfg = (\<lambda>c. Inr ex_ds),
             walk = (\<lambda>d. [(d, [''a'', ''b''], []), (d @ ''/a'', [''.hydra''], []),
                          (d @ ''/a/.hydra'', [], [''config.yaml'']),
                          (d @ ''/b'', [''.hydra'', ''motion_chunks''], []),
                          (d @ ''/b/.hydra'', [], []), (d @ ''/b/motion_chunks'', [], [])]),
             makedirs = (\<lambda>d. Inr ())\<rparr>"

definition ex_rr :: "nat rr_state" where
  "ex_rr = \<lparr>cur_time = None, events = [], saved = []\<rparr>"

definition ex_proc :: "nat proc" where
  "ex_proc = \<lparr>rr = ex_rr, stdout = [], environ = []\<rparr>"

text \<open>The same environment with a dataset that has no tracks.\<close>

definition ex_env_empty :: "(nat, unit, nat) env" where
  "ex_env_empty =
     ex_env\<lparr>get_dataset_from_cfg :=
              (\<lambda>c. Inr (ex_ds\<lparr>ds_len := 0, track_ids := [], vis_mask := [], joints2d := []\<rparr>))\<rparr>"

text \<open>A command line with two devices.\<close>

definition ex_args :: args where
  "ex_args = \<lparr>log_root = ''logs'', save_root = None, phases = [''motion_chunks''],
              gpus = [PyInt 0, PyStr ''1''], log_dirs = []\<rparr>"

text \<open>A frame of 19 keypoints with distinct coordinates; keypoint 0 has confidence exactly
  0.3. The endpoints of the segments that pass the filter, in the order of the edge table,
  worked out by hand from the two tables of the source.\<close>

definition ex_pose :: "joint list" where
  "ex_pose =
     [(0, 100, 3 / 10), (1, 101, 1 / 2), (2, 102, 1 / 2), (3, 103, 1 / 2), (4, 104, 1
      / 2), (5, 105, 1 / 2), (6, 106, 1 / 2), (7, 107, 1 / 2), (8, 108, 1 / 2), (9,
      109, 1 / 2), (10, 110, 1 / 2), (11, 111, 1 / 2), (12, 112, 1 / 2), (13, 113, 1 /
      2), (14, 114, 1 / 2), (15, 115, 1 / 2), (16, 116, 1 / 2), (17, 117, 1 / 2), (18,
      118, 1 / 2)]"

definition ex_pose_points :: "(real \<times> real) list" where
  "ex_pose_points =
     [(14, 114), (13, 113), (13, 113), (12, 112), (11, 111), (10, 110), (10, 110), (9,
      109), (12, 112), (9, 109), (5, 105), (12, 112), (2, 102), (9, 109), (5, 105),
      (2, 102), (5, 105), (6, 106), (2, 102), (3, 103), (6, 106), (7, 107), (3, 103),
      (4, 104), (16, 116), (15, 115), (16, 116), (18, 118), (15, 115), (17, 117), (18,
      118), (5, 105), (17, 117), (2, 102)]"

definition ex_ds_pose :: "(nat, nat) dataset" where
  "ex_ds_pose = ex_ds\<lparr>joints2d := [[ex_blank, ex_pose], [ex_blank, ex_blank]]\<rparr>"

section \<open>Basic facts\<close>

lemma and_then_Inr_iff: "and_then m f = Inr y \<longleftrightarrow> (\<exists>x. m = Inr x \<and> f x = Inr y)"
  by (cases m) (simp_all add: and_then_def)

lemma and_then_Inr [simp]: "and_then (Inr x) f = f x"
  by (simp add: and_then_def)

lemma and_then_Inl [simp]: "and_then (Inl e) f = Inl e"
  by (simp add: and_then_def)

lemma py_get_Inr_iff: "py_get xs i = Inr x \<longleftrightarrow> i < length xs \<and> x = xs ! i"
  by (auto simp: py_get_def)

lemma index2_Inr_iff:
  "index2 t a b = Inr x \<longleftrightarrow> a < length t \<and> b < length (t ! a) \<and> x = t ! a ! b"
  by (auto simp: index2_def and_then_Inr_iff py_get_Inr_iff)

lemma dict_get_Inr_iff: "dict_get v = Inr x \<longleftrightarrow> v = Some x"
  by (cases v) (simp_all add: dict_get_def)

subsection \<open>Decimal digits\<close>

lemma digit_char_inj: "a < 10 \<Longrightarrow> b < 10 \<Longrightarrow> digit_char a = digit_char b \<Longrightarrow> a = b"
proof -
  assume a: "a < 10" and b: "b < 10" and e: "digit_char a = digit_char b"
  from e have "(of_char (char_of (48 + a)) :: nat) = of_char (char_of (48 + b))"
    by (simp add: digit_char_def)
  then have "(48 + a) mod 256 = (48 + b) mod 256" by simp
  with a b show "a = b" by simp
qed

lemma str_nat_not_Nil: "str_nat n \<noteq> []"
  by (subst str_nat.simps) simp

lemma str_nat_small: "n < 10 \<Longrightarrow> str_nat n = [digit_char n]"
  by (subst str_nat.simps) simp

lemma str_nat_big: "10 \<le> n \<Longrightarrow> str_nat n = str_nat (n div 10) @ [digit_char (n mod 10)]"
  by (subst str_nat.simps) simp

lemma str_nat_inj: "str_nat n = str_nat m \<Longrightarrow> n = m"
proof (induction n arbitrary: m rule: str_nat.induct)
  case (1 n)
  show ?case
  proof (cases "n < 10")
    case small: True
    show ?thesis
    proof (cases "m < 10")
      case True
      with small "1.prems" show ?thesis
        by (simp add: str_nat_small digit_char_inj)
    next
      case False
      with small "1.prems" str_nat_not_Nil[of "m div 10"] show ?thesis
        by (auto simp: str_nat_small str_nat_big)
    qed
  next
    case big: False
    show ?thesis
    proof (cases "m < 10")
      case True
      with big "1.prems" str_nat_not_Nil[of "n div 10"] show ?thesis
        by (auto simp: str_nat_small str_nat_big)
    next
      case False
      with big "1.prems" have e: "str_nat (n div 10) = str_nat (m div 10)"
        and d: "digit_char (n mod 10) = digit_char (m mod 10)"
        by (simp_all add: str_nat_big)
      from "1.IH" big e have "n div 10 = m div 10" by simp
      moreover from d have "n mod 10 = m mod 10" by (simp add: digit_char_inj)
      ultimately show ?thesis by (metis div_mult_mod_eq)
    qed
  qed
qed

lemma skeleton_path_inj: "skeleton_path i = skeleton_path j \<longleftrightarrow> i = j"
  by (auto simp: skeleton_path_def dest: str_nat_inj)

lemma phase_path_inj: "phase_path ph i = phase_path ph j \<longleftrightarrow> i = j"
  by (auto simp: phase_path_def dest: str_nat_inj)

lemma phase_path_not_camera: "phase_path ph i \<noteq> ''world/camera''"
  by (simp add: phase_path_def)

subsection \<open>Loops\<close>

lemma for_each_append:
  "for_each body (xs @ ys) s = and_then (for_each body xs s) (for_each body ys)"
  by (induction xs arbitrary: s) (auto split: sum.splits)

lemma for_each_invariant:
  assumes "for_each body xs s = Inr s'" and "I s"
    and "\<And>x t t'. x \<in> set xs \<Longrightarrow> I t \<Longrightarrow> body x t = Inr t' \<Longrightarrow> I t'"
  shows "I s'"
  using assms
proof (induction xs arbitrary: s)
  case Nil
  then show ?case by simp
next
  case (Cons x xs)
  from Cons.prems(1) obtain t where t: "body x s = Inr t" and r: "for_each body xs t = Inr s'"
    by (auto split: sum.splits)
  have it: "I t" using Cons.prems(3)[OF _ Cons.prems(2) t] by simp
  have step: "\<And>y u u'. y \<in> set xs \<Longrightarrow> I u \<Longrightarrow> body y u = Inr u' \<Longrightarrow> I u'"
    using Cons.prems(3) by auto
  show ?case by (rule Cons.IH[OF r it step])
qed

lemma for_each_events:
  assumes "for_each body xs s = Inr s'" and "I s"
    and "\<And>x t t'. x \<in> set xs \<Longrightarrow> I t \<Longrightarrow> body x t = Inr t' \<Longrightarrow>
           I t' \<and> events t' = events t @ g x"
  shows "I s' \<and> events s' = events s @ concat (map g xs)"
  using assms
proof (induction xs arbitrary: s)
  case Nil
  then show ?case by simp
next
  case (Cons x xs)
  from Cons.prems(1) obtain t where t: "body x s = Inr t" and r: "for_each body xs t = Inr s'"
    by (auto split: sum.splits)
  from Cons.prems(3)[OF _ Cons.prems(2) t] have it: "I t" and et: "events t = events s @ g x"
    by simp_all
  have step: "\<And>y u u'. y \<in> set xs \<Longrightarrow> I u \<Longrightarrow> body y u = Inr u' \<Longrightarrow>
                  I u' \<and> events u' = events u @ g y"
    using Cons.prems(3) by auto
  have "I s' \<and> events s' = events t @ concat (map g xs)"
    by (rule Cons.IH[OF r it step])
  with et show ?case by simp
qed

lemma filter_concat_single:
  assumes "i < n" and "\<And>j. j < n \<Longrightarrow> j \<noteq> i \<Longrightarrow> filter P (g j) = []"
  shows "filter P (concat (map g [0..<n])) = filter P (g i)"
  using assms
proof (induction n)
  case 0
  then show ?case by simp
next
  case (Suc n)
  show ?case
  proof (cases "i = n")
    case True
    have "\<forall>j\<in>set [0..<n]. filter P (g j) = []"
      using Suc.prems(2) True by auto
    then have "concat (map (\<lambda>j. filter P (g j)) [0..<n]) = []"
      by simp
    then have "filter P (concat (map g [0..<n])) = []"
      by (simp add: filter_concat comp_def)
    with True show ?thesis by simp
  next
    case False
    with Suc.prems have "i < n" by simp
    from Suc.IH[OF this] Suc.prems(2) have "filter P (concat (map g [0..<n])) = filter P (g i)"
      by simp
    moreover have "filter P (g n) = []" using Suc.prems(2)[of n] False by simp
    ultimately show ?thesis by simp
  qed
qed

lemma enumerate_0: "enumerate 0 xs = map (\<lambda>i. (i, xs ! i)) [0..<length xs]"
  by (rule nth_equalityI) (simp_all add: nth_enumerate_eq)

section \<open>The skeleton extractor: remapping and the confidence filter\<close>

lemma fancy_index_Inr: "fancy_index xs ks = Inr ys \<Longrightarrow> ys = map (\<lambda>k. xs ! k) ks"
  by (auto simp: fancy_index_def split: if_splits)

lemma segments_Inr:
  assumes "segments fj = Inr segs"
  shows "segs = map (\<lambda>e. (fj ! (idcs ! fst e), fj ! (idcs ! snd e))) skeleton_ids"
proof -
  from assms obtain r a b where r: "fancy_index fj idcs = Inr r"
    and a: "fancy_index r (map fst skeleton_ids) = Inr a"
    and b: "fancy_index r (map snd skeleton_ids) = Inr b"
    and s: "segs = zip a b"
    by (auto simp: segments_def and_then_Inr_iff)
  have r': "r = map (\<lambda>k. fj ! k) idcs" using fancy_index_Inr[OF r] by simp
  have a': "a = map (\<lambda>k. r ! k) (map fst skeleton_ids)" using fancy_index_Inr[OF a] by simp
  have b': "b = map (\<lambda>k. r ! k) (map snd skeleton_ids)" using fancy_index_Inr[OF b] by simp
  have lt: "\<forall>e\<in>set skeleton_ids. fst e < length idcs \<and> snd e < length idcs"
    by (simp add: skeleton_ids_def idcs_def)
  have "zip a b = map (\<lambda>e. (r ! fst e, r ! snd e)) skeleton_ids"
    unfolding a' b' by (simp add: zip_map_map) (simp add: zip_same_conv_map)
  also have "\<dots> = map (\<lambda>e. (fj ! (idcs ! fst e), fj ! (idcs ! snd e))) skeleton_ids"
    using lt by (auto simp: r')
  finally show ?thesis using s by simp
qed

lemma segments_ok: "19 \<le> length fj \<Longrightarrow> \<exists>segs. segments fj = Inr segs"
  by (auto simp: segments_def fancy_index_def idcs_def skeleton_ids_def)

lemma segments_fail: "length fj < 19 \<Longrightarrow> segments fj = Inl IndexError"
  by (auto simp: segments_def fancy_index_def idcs_def skeleton_ids_def)

text \<open>
  Claim C2. The candidate segments are the edges of the constant edge table read through
  the constant permutation table; the confidence of a segment is the minimum of the
  confidences of its two endpoints; a segment is kept if and only if that minimum is
  strictly greater than 0.3, so a segment whose minimum is exactly 0.3 is dropped.
  Confidences are real numbers here.
\<close>

theorem skeleton_filter_strict:
  assumes "segments fj = Inr segs"
  shows "segs = map (\<lambda>e. (fj ! (idcs ! fst e), fj ! (idcs ! snd e))) skeleton_ids
       \<and> (\<forall>seg \<in> set segs. joint_confidence seg = min (conf (fst seg)) (conf (snd seg)))
       \<and> good_joints_xy segs =
           map (\<lambda>seg. (xy (fst seg), xy (snd seg)))
             (filter (\<lambda>seg. 3 / 10 < min (conf (fst seg)) (conf (snd seg))) segs)
       \<and> (\<forall>seg \<in> set segs.
             (seg \<in> set (filter (\<lambda>seg. 3 / 10 < joint_confidence seg) segs)
                \<longleftrightarrow> 3 / 10 < min (conf (fst seg)) (conf (snd seg)))
           \<and> (min (conf (fst seg)) (conf (snd seg)) = 3 / 10 \<longrightarrow>
                seg \<notin> set (filter (\<lambda>seg. 3 / 10 < joint_confidence seg) segs)))"
proof (intro conjI)
  show "segs = map (\<lambda>e. (fj ! (idcs ! fst e), fj ! (idcs ! snd e))) skeleton_ids"
    by (rule segments_Inr[OF assms])
  show "\<forall>seg \<in> set segs. joint_confidence seg = min (conf (fst seg)) (conf (snd seg))"
    by (simp add: joint_confidence_def)
  show "good_joints_xy segs =
          map (\<lambda>seg. (xy (fst seg), xy (snd seg)))
            (filter (\<lambda>seg. 3 / 10 < min (conf (fst seg)) (conf (snd seg))) segs)"
    by (simp add: good_joints_xy_def joint_confidence_def)
  show "\<forall>seg \<in> set segs.
          (seg \<in> set (filter (\<lambda>seg. 3 / 10 < joint_confidence seg) segs)
             \<longleftrightarrow> 3 / 10 < min (conf (fst seg)) (conf (snd seg)))
        \<and> (min (conf (fst seg)) (conf (snd seg)) = 3 / 10 \<longrightarrow>
             seg \<notin> set (filter (\<lambda>seg. 3 / 10 < joint_confidence seg) segs))"
  proof
    fix seg assume "seg \<in> set segs"
    then show "(seg \<in> set (filter (\<lambda>seg. 3 / 10 < joint_confidence seg) segs)
             \<longleftrightarrow> 3 / 10 < min (conf (fst seg)) (conf (snd seg)))
        \<and> (min (conf (fst seg)) (conf (snd seg)) = 3 / 10 \<longrightarrow>
             seg \<notin> set (filter (\<lambda>seg. 3 / 10 < joint_confidence seg) segs))"
      unfolding joint_confidence_def set_filter by (cases "min (conf (fst seg)) (conf (snd seg)) = 3 / 10") auto
  qed
qed

lemma ex_segments_ok: "segments ex_frame = Inr ex_segs"
  using segments_ok[of ex_frame] segments_Inr[of ex_frame] by (auto simp: ex_frame_def ex_segs_def)

theorem skeleton_filter_strict_witness:
  "segments ex_frame = Inr ex_segs
   \<and> ((0, 0, 3 / 10), (16, 0, 1 / 2)) \<in> set ex_segs
   \<and> ((0, 0, 3 / 10), (16, 0, 1 / 2)) \<notin> set (filter (\<lambda>seg. 3 / 10 < joint_confidence seg) ex_segs)
   \<and> length (good_joints_xy ex_segs) = 17"
proof -
  have s: "segments ex_frame = Inr ex_segs" by (rule ex_segments_ok)
  have m: "((0, 0, 3 / 10), (16, 0, 1 / 2)) \<in> set ex_segs"
    by (simp add: ex_segs_def ex_frame_def idcs_def skeleton_ids_def)
  have c: "min (conf (fst ((0, 0, 3 / 10), (16, 0, 1 / 2)))) (conf (snd ((0, 0, 3 / 10), (16::real, 0::real, 1 / 2 :: real)))) = 3 / 10"
    by (simp add: conf_def)
  have l: "length (good_joints_xy ex_segs) = 17"
    by (simp add: good_joints_xy_def joint_confidence_def conf_def ex_segs_def ex_frame_def idcs_def skeleton_ids_def)
  from skeleton_filter_strict[OF s] m c l s show ?thesis by blast
qed

section \<open>What one phase pass sends\<close>

lemma for_each_Cons_Inr:
  "for_each body (x # xs) s = Inr s' \<longleftrightarrow> (\<exists>t. body x s = Inr t \<and> for_each body xs t = Inr s')"
  by (cases "body x s") simp_all

lemma for_each_reaches:
  assumes "for_each body xs s = Inr s'" and "I s"
    and "\<And>y t t'. y \<in> set xs \<Longrightarrow> I t \<Longrightarrow> body y t = Inr t' \<Longrightarrow> I t'"
    and "x \<in> set xs"
  shows "\<exists>t t'. I t \<and> body x t = Inr t'"
  using assms
proof (induction xs arbitrary: s)
  case Nil
  then show ?case by simp
next
  case (Cons y ys)
  from Cons.prems(1)[unfolded for_each_Cons_Inr]
  obtain t where t: "body y s = Inr t" and r: "for_each body ys t = Inr s'"
    by blast
  show ?case
  proof (cases "x = y")
    case True
    with t Cons.prems(2) show ?thesis by blast
  next
    case False
    with Cons.prems(4) have m: "x \<in> set ys" by simp
    have it: "I t" using Cons.prems(3)[OF _ Cons.prems(2) t] by simp
    have step: "\<And>z u u'. z \<in> set ys \<Longrightarrow> I u \<Longrightarrow> body z u = Inr u' \<Longrightarrow> I u'"
      using Cons.prems(3) by auto
    show ?thesis by (rule Cons.IH[OF r it step m])
  qed
qed

lemma rr_log_simps [simp]:
  "events (rr_log p b st) = events st @ [\<lparr>ev_path = p, ev_time = cur_time st, ev_body = b\<rparr>]"
  "cur_time (rr_log p b st) = cur_time st"
  "saved (rr_log p b st) = saved st"
  by (simp_all add: rr_log_def)

lemma set_time_sequence_simps [simp]:
  "events (set_time_sequence t st) = events st"
  "cur_time (set_time_sequence t st) = Some t"
  "saved (set_time_sequence t st) = saved st"
  by (simp_all add: set_time_sequence_def)

lemma log_track_mesh_Inr:
  assumes "log_track_mesh E ds ph verts faces f tr st = Inr st'" and "cur_time st = Some f"
  shows "fst tr < length (vis_mask ds) \<and> f < length (vis_mask ds ! fst tr)
       \<and> cur_time st' = Some f \<and> saved st' = saved st
       \<and> events st' = events st @ [mesh_event E ds ph verts faces f (fst tr)]"
  using assms
  by (auto simp: log_track_mesh_def and_then_Inr_iff index2_Inr_iff mesh_event_def Let_def
           split: if_splits)

lemma track_loop_events:
  assumes "for_each (log_track_mesh E ds ph verts faces f) (enumerate 0 tids) st = Inr st'"
    and "cur_time st = Some f"
  shows "cur_time st' = Some f \<and> saved st' = saved st
       \<and> events st' = events st @ map (mesh_event E ds ph verts faces f) [0..<length tids]"
proof -
  let ?I = "\<lambda>t. cur_time t = Some f \<and> saved t = saved st"
  let ?g = "\<lambda>tr :: nat \<times> 'b. [mesh_event E ds ph verts faces f (fst tr)]"
  have "?I st' \<and> events st' = events st @ concat (map ?g (enumerate 0 tids))"
  proof (rule for_each_events[where I = ?I and g = ?g, OF assms(1)])
    show "?I st" using assms(2) by simp
  next
    fix x t t'
    assume "?I t" and "log_track_mesh E ds ph verts faces f x t = Inr t'"
    then show "?I t' \<and> events t' = events t @ ?g x"
      using log_track_mesh_Inr[of E ds ph verts faces f x t t'] by simp
  qed
  moreover have "concat (map ?g (enumerate 0 tids)) = map (mesh_event E ds ph verts faces f) [0..<length tids]"
    by (simp add: enumerate_0 comp_def)
  ultimately show ?thesis by simp
qed

lemma track_loop_in_range:
  assumes "for_each (log_track_mesh E ds ph verts faces f) (enumerate 0 tids) st = Inr st'"
    and "cur_time st = Some f" and "i < length tids"
  shows "i < length (vis_mask ds) \<and> f < length (vis_mask ds ! i)"
proof -
  have m: "(i, tids ! i) \<in> set (enumerate 0 tids)"
    using assms(3) by (simp add: in_set_enumerate_eq)
  have "\<exists>t t'. cur_time t = Some f \<and> log_track_mesh E ds ph verts faces f (i, tids ! i) t = Inr t'"
  proof (rule for_each_reaches[where I = "\<lambda>t. cur_time t = Some f", OF assms(1) assms(2) _ m])
    fix y t t'
    assume "cur_time t = Some f" and "log_track_mesh E ds ph verts faces f y t = Inr t'"
    then show "cur_time t' = Some f"
      using log_track_mesh_Inr[of E ds ph verts faces f y t t'] by simp
  qed
  then obtain t t' where "cur_time t = Some f"
    and "log_track_mesh E ds ph verts faces f (i, tids ! i) t = Inr t'" by blast
  from log_track_mesh_Inr[OF this(2) this(1)] show ?thesis by simp
qed

lemma log_phase_frame_Inr:
  assumes "log_phase_frame E ds ph res verts faces f st = Inr st'"
  shows "(\<exists>ct cr. pr_cam_t res = Some ct \<and> pr_cam_R res = Some cr
            \<and> 1 < length ct \<and> f < length (ct ! 1) \<and> 1 < length cr \<and> f < length (cr ! 1))
       \<and> (\<forall>i < length (track_ids ds). i < length (vis_mask ds) \<and> f < length (vis_mask ds ! i))
       \<and> saved st' = saved st
       \<and> events st' = events st @ frame_events E ds ph res verts faces f"
proof -
  from assms obtain ct cr where ct: "pr_cam_t res = Some ct" and cr: "pr_cam_R res = Some cr"
    and r: "1 < length ct" "f < length (ct ! 1)" "1 < length cr" "f < length (cr ! 1)"
    and l: "for_each (log_track_mesh E ds ph verts faces f) (enumerate 0 (track_ids ds))
              (rr_log ''world/camera'' (Rigid3 (ct ! 1 ! f) (as_quat E (cr ! 1 ! f)) ''RDF'')
                 (set_time_sequence f st)) = Inr st'"
    by (auto simp: log_phase_frame_def Let_def and_then_Inr_iff dict_get_Inr_iff index2_Inr_iff)
  let ?s = "rr_log ''world/camera'' (Rigid3 (ct ! 1 ! f) (as_quat E (cr ! 1 ! f)) ''RDF'')
                 (set_time_sequence f st)"
  have c: "cur_time ?s = Some f" by simp
  from track_loop_events[OF l c] track_loop_in_range[OF l c] ct cr r show ?thesis
    by (simp add: frame_events_def camera_event_def)
qed

lemma log_phase_result_Inr:
  assumes "log_phase_result E cfg ds dev ph res st = Inr st'"
  shows "\<exists>bm verts faces.
           load_smpl_body_model E cfg (ds_len ds * seq_len ds) dev = Inr bm
         \<and> run_smpl E bm (the (pr_trans res)) (the (pr_root_orient res)) (the (pr_pose_body res))
              (pr_betas res) = Inr (verts, faces)
         \<and> saved st' = saved st
         \<and> events st' = events st @ phase_events E ds ph res verts faces"
proof -
  from assms obtain bm verts faces where
    bm: "load_smpl_body_model E cfg (ds_len ds * seq_len ds) dev = Inr bm"
    and sm: "run_smpl E bm (the (pr_trans res)) (the (pr_root_orient res)) (the (pr_pose_body res))
              (pr_betas res) = Inr (verts, faces)"
    and l: "for_each (log_phase_frame E ds ph res verts faces) [0..<seq_len ds] st = Inr st'"
    by (auto simp: log_phase_result_def Let_def and_then_Inr_iff dict_get_Inr_iff)
  let ?I = "\<lambda>t. saved t = saved st"
  have "?I st' \<and> events st' = events st @ concat (map (frame_events E ds ph res verts faces) [0..<seq_len ds])"
  proof (rule for_each_events[where I = ?I, OF l])
    show "?I st" by simp
  next
    fix x t t'
    assume "?I t" and "log_phase_frame E ds ph res verts faces x t = Inr t'"
    then show "?I t' \<and> events t' = events t @ frame_events E ds ph res verts faces x"
      using log_phase_frame_Inr[of E ds ph res verts faces x t t'] by simp
  qed
  with bm sm show ?thesis by (auto simp: phase_events_def)
qed

lemma log_phase_result_in_range:
  assumes "log_phase_result E cfg ds dev ph res st = Inr st'" and "f < seq_len ds"
  shows "(\<exists>ct cr. pr_cam_t res = Some ct \<and> pr_cam_R res = Some cr
            \<and> 1 < length ct \<and> f < length (ct ! 1) \<and> 1 < length cr \<and> f < length (cr ! 1))
       \<and> (\<forall>i < length (track_ids ds). i < length (vis_mask ds) \<and> f < length (vis_mask ds ! i))"
proof -
  from assms obtain verts faces where
    l: "for_each (log_phase_frame E ds ph res verts faces) [0..<seq_len ds] st = Inr st'"
    by (auto simp: log_phase_result_def Let_def and_then_Inr_iff dict_get_Inr_iff)
  have "\<exists>t t'. True \<and> log_phase_frame E ds ph res verts faces f t = Inr t'"
    by (rule for_each_reaches[where I = "\<lambda>t. True", OF l]) (use assms(2) in simp_all)
  then obtain t t' where "log_phase_frame E ds ph res verts faces f t = Inr t'" by blast
  from log_phase_frame_Inr[OF this] show ?thesis by blast
qed

section \<open>The visibility gate\<close>

lemma filter_map_single:
  assumes "i < n" and "\<And>j. j < n \<Longrightarrow> P (h j) \<longleftrightarrow> j = i"
  shows "filter P (map h [0..<n]) = [h i]"
proof -
  have "filter P (concat (map (\<lambda>j. [h j]) [0..<n])) = filter P [h i]"
    by (rule filter_concat_single[OF assms(1)]) (simp add: assms(2))
  then show ?thesis using assms by simp
qed

lemma new_events_append: "events st' = events st @ evs \<Longrightarrow> new_events st st' = evs"
  by (simp add: new_events_def)

lemma at_key_frame_events_other:
  "f' \<noteq> f \<Longrightarrow> filter (\<lambda>e. ev_path e = p \<and> ev_time e = Some f) (frame_events E ds ph res verts faces f') = []"
  by (auto simp: frame_events_def camera_event_def mesh_event_def filter_empty_conv)

lemma at_key_phase_events:
  assumes "f < seq_len ds"
  shows "at_key p f (phase_events E ds ph res verts faces)
         = filter (\<lambda>e. ev_path e = p \<and> ev_time e = Some f) (frame_events E ds ph res verts faces f)"
  unfolding at_key_def phase_events_def
  by (rule filter_concat_single[OF assms]) (simp add: at_key_frame_events_other)

lemma at_key_mesh:
  assumes "f < seq_len ds" and "i < length (track_ids ds)"
  shows "at_key (phase_path ph i) f (phase_events E ds ph res verts faces)
         = [mesh_event E ds ph verts faces f i]"
proof -
  have "filter (\<lambda>e. ev_path e = phase_path ph i \<and> ev_time e = Some f)
          (map (mesh_event E ds ph verts faces f) [0..<length (track_ids ds)])
        = [mesh_event E ds ph verts faces f i]"
    by (rule filter_map_single[OF assms(2)]) (auto simp: mesh_event_def phase_path_inj)
  then show ?thesis
    using phase_path_not_camera[of ph i]
    by (simp add: at_key_phase_events[OF assms(1)] frame_events_def camera_event_def)
qed

lemma at_key_camera:
  assumes "f < seq_len ds"
  shows "at_key ''world/camera'' f (phase_events E ds ph res verts faces) = [camera_event E res f]"
proof -
  have "filter (\<lambda>e. ev_path e = ''world/camera'' \<and> ev_time e = Some f)
          (map (mesh_event E ds ph verts faces f) [0..<length (track_ids ds)]) = []"
    using phase_path_not_camera[of ph] by (auto simp: filter_empty_conv mesh_event_def)
  then show ?thesis
    by (simp add: at_key_phase_events[OF assms(1)] frame_events_def camera_event_def)
qed

text \<open>
  Claim C1. In one phase pass, for every track index i and frame index f, exactly one event
  is sent at the entity path world/phase_<phase>/#i with timeline key f: a mesh when the
  visibility code is at least 0, a clear when it is negative. The mesh does not depend on
  whether the code is 0 or 1.
\<close>

theorem visibility_gate:
  assumes "log_phase_result E cfg ds dev ph res st = Inr st'"
    and "i < length (track_ids ds)" and "f < seq_len ds"
  shows "\<exists>bm verts faces code.
           load_smpl_body_model E cfg (ds_len ds * seq_len ds) dev = Inr bm
         \<and> run_smpl E bm (the (pr_trans res)) (the (pr_root_orient res)) (the (pr_pose_body res))
              (pr_betas res) = Inr (verts, faces)
         \<and> index2 (vis_mask ds) i f = Inr code
         \<and> at_key (phase_path ph i) f (new_events st st') =
             [\<lparr>ev_path = phase_path ph i, ev_time = Some f,
               ev_body = (if code \<ge> 0
                          then Mesh (verts ! i ! f) faces (vertex_normals E (verts ! i ! f) faces)
                          else Cleared)\<rparr>]"
proof -
  from log_phase_result_Inr[OF assms(1)] obtain bm verts faces where
    bm: "load_smpl_body_model E cfg (ds_len ds * seq_len ds) dev = Inr bm"
    and sm: "run_smpl E bm (the (pr_trans res)) (the (pr_root_orient res)) (the (pr_pose_body res))
              (pr_betas res) = Inr (verts, faces)"
    and ev: "events st' = events st @ phase_events E ds ph res verts faces"
    by blast
  from log_phase_result_in_range[OF assms(1) assms(3)] assms(2)
  have r: "i < length (vis_mask ds)" "f < length (vis_mask ds ! i)" by simp_all
  then have c: "index2 (vis_mask ds) i f = Inr (vis_mask ds ! i ! f)"
    by (simp add: index2_Inr_iff)
  have "at_key (phase_path ph i) f (new_events st st') = [mesh_event E ds ph verts faces f i]"
    by (simp add: new_events_append[OF ev] at_key_mesh[OF assms(3) assms(2)])
  with bm sm c show ?thesis by (auto simp: mesh_event_def)
qed

lemma ex_phase_run:
  "\<exists>st'. log_phase_result ex_env () ex_ds (PyInt 0) ''motion_chunks'' ex_res ex_rr = Inr st'"
  by (simp add: log_phase_result_def ex_env_def ex_ds_def ex_res_def ex_rr_def dict_get_def
      log_phase_frame_def index2_def py_get_def log_track_mesh_def rr_log_def
      set_time_sequence_def Let_def upt_conv_Cons)

theorem visibility_gate_witness:
  "\<exists>st'. log_phase_result ex_env () ex_ds (PyInt 0) ''motion_chunks'' ex_res ex_rr = Inr st'
     \<and> at_key (phase_path ''motion_chunks'' 0) 1 (new_events ex_rr st') =
         [\<lparr>ev_path = phase_path ''motion_chunks'' 0, ev_time = Some 1, ev_body = Cleared\<rparr>]
     \<and> at_key (phase_path ''motion_chunks'' 0) 2 (new_events ex_rr st') =
         [\<lparr>ev_path = phase_path ''motion_chunks'' 0, ev_time = Some 2, ev_body = Mesh 302 5 307\<rparr>]"
proof -
  from ex_phase_run obtain st' where
    r: "log_phase_result ex_env () ex_ds (PyInt 0) ''motion_chunks'' ex_res ex_rr = Inr st'" ..
  have i: "0 < length (track_ids ex_ds)" and f1: "1 < seq_len ex_ds" and f2: "2 < seq_len ex_ds"
    by (simp_all add: ex_ds_def)
  have "at_key (phase_path ''motion_chunks'' 0) 1 (new_events ex_rr st') =
         [\<lparr>ev_path = phase_path ''motion_chunks'' 0, ev_time = Some 1, ev_body = Cleared\<rparr>]"
    using visibility_gate[OF r i f1]
    by (auto simp: ex_env_def ex_ds_def ex_res_def index2_Inr_iff)
  moreover have "at_key (phase_path ''motion_chunks'' 0) 2 (new_events ex_rr st') =
         [\<lparr>ev_path = phase_path ''motion_chunks'' 0, ev_time = Some 2, ev_body = Mesh 302 5 307\<rparr>]"
    using visibility_gate[OF r i f2]
    by (auto simp: ex_env_def ex_ds_def ex_res_def index2_Inr_iff)
  ultimately show ?thesis using r by blast
qed

section \<open>The camera pose of a phase\<close>

lemma index2_row0: "index2 (x # tl t) (Suc 0) f = index2 t (Suc 0) f"
  by (cases t; cases "tl t") (simp_all add: index2_def py_get_def and_then_def)

lemma log_phase_frame_row0:
  assumes "pr_cam_t res = Some ct" and "pr_cam_R res = Some cr"
  shows "log_phase_frame E ds ph (res\<lparr>pr_cam_t := Some (x # tl ct), pr_cam_R := Some (y # tl cr)\<rparr>)
           verts faces f st
         = log_phase_frame E ds ph res verts faces f st"
  using assms by (simp add: log_phase_frame_def dict_get_def index2_row0)

lemma log_phase_result_row0:
  assumes "pr_cam_t res = Some ct" and "pr_cam_R res = Some cr"
  shows "log_phase_result E cfg ds dev ph
           (res\<lparr>pr_cam_t := Some (x # tl ct), pr_cam_R := Some (y # tl cr)\<rparr>) st
         = log_phase_result E cfg ds dev ph res st"
proof -
  have "log_phase_frame E ds ph (res\<lparr>pr_cam_t := Some (x # tl ct), pr_cam_R := Some (y # tl cr)\<rparr>)
        = log_phase_frame E ds ph res"
    by (intro ext) (rule log_phase_frame_row0[OF assms])
  then show ?thesis by (simp add: log_phase_result_def)
qed

lemma log_camera_frame_Inr:
  assumes "log_camera_frame q ds f st = Inr st'"
  shows "saved st' = saved st \<and> events st' = events st @ defining_camera_events q ds f"
  using assms
  by (auto simp: log_camera_frame_def and_then_Inr_iff py_get_Inr_iff Let_def
        defining_camera_events_def)

lemma log_camera_Inr:
  assumes "log_camera q ds st = Inr st'"
  shows "saved st' = saved st
       \<and> events st' = events st @ concat (map (defining_camera_events q ds) [0..<seq_len ds])"
proof -
  have "saved st' = saved st \<and> events st' = events st @ concat (map (defining_camera_events q ds) [0..<seq_len ds])"
  proof (rule for_each_events[where I = "\<lambda>t. saved t = saved st", OF assms[unfolded log_camera_def]])
    show "saved st = saved st" by simp
  next
    fix x t t'
    assume "saved t = saved st" and "log_camera_frame q ds x t = Inr t'"
    then show "saved t' = saved st \<and> events t' = events t @ defining_camera_events q ds x"
      using log_camera_frame_Inr[of q ds x t t'] by simp
  qed
  then show ?thesis .
qed

lemma at_key_defining_camera:
  assumes "f < seq_len ds"
  shows "at_key ''world/camera'' f (concat (map (defining_camera_events q ds) [0..<seq_len ds]))
         = [\<lparr>ev_path = ''world/camera'', ev_time = Some f,
              ev_body = Rigid3 (cam_t ds ! f) (q (cam_R ds ! f)) ''RDF''\<rparr>]"
proof -
  have "filter (\<lambda>e. ev_path e = ''world/camera'' \<and> ev_time e = Some f)
          (concat (map (defining_camera_events q ds) [0..<seq_len ds]))
        = filter (\<lambda>e. ev_path e = ''world/camera'' \<and> ev_time e = Some f)
            (defining_camera_events q ds f)"
    by (rule filter_concat_single[OF assms]) (simp add: defining_camera_events_def)
  then show ?thesis by (simp add: at_key_def defining_camera_events_def)
qed

text \<open>
  Claim C10. For every frame f the camera pose that a phase pass sends is read from the
  phase result at leading index 1, translation \<^verbatim>\<open>cam_t[1, f]\<close> and rotation \<^verbatim>\<open>cam_R[1, f]\<close>;
  the entries at leading index 0 are never read, so replacing them changes nothing. The
  logger of the defining camera reads its arrays by the frame index alone.
\<close>

theorem phase_camera_leading_index_one:
  assumes "log_phase_result E cfg ds dev ph res st = Inr st'"
    and "f < seq_len ds"
    and "log_camera q ds s = Inr s'"
  shows "\<exists>ct cr. pr_cam_t res = Some ct \<and> pr_cam_R res = Some cr
         \<and> index2 ct 1 f = Inr (ct ! 1 ! f) \<and> index2 cr 1 f = Inr (cr ! 1 ! f)
         \<and> at_key ''world/camera'' f (new_events st st') =
             [\<lparr>ev_path = ''world/camera'', ev_time = Some f,
               ev_body = Rigid3 (ct ! 1 ! f) (as_quat E (cr ! 1 ! f)) ''RDF''\<rparr>]
         \<and> (\<forall>x y. log_phase_result E cfg ds dev ph
                      (res\<lparr>pr_cam_t := Some (x # tl ct), pr_cam_R := Some (y # tl cr)\<rparr>) st
                    = Inr st')
         \<and> at_key ''world/camera'' f (new_events s s') =
             [\<lparr>ev_path = ''world/camera'', ev_time = Some f,
               ev_body = Rigid3 (cam_t ds ! f) (q (cam_R ds ! f)) ''RDF''\<rparr>]"
proof -
  from log_phase_result_in_range[OF assms(1) assms(2)] obtain ct cr where
    ct: "pr_cam_t res = Some ct" and cr: "pr_cam_R res = Some cr"
    and r: "1 < length ct" "f < length (ct ! 1)" "1 < length cr" "f < length (cr ! 1)"
    by blast
  from log_phase_result_Inr[OF assms(1)] obtain verts faces where
    ev: "events st' = events st @ phase_events E ds ph res verts faces"
    by blast
  have a: "at_key ''world/camera'' f (new_events st st') = [camera_event E res f]"
    by (simp add: new_events_append[OF ev] at_key_camera[OF assms(2)])
  have b: "\<forall>x y. log_phase_result E cfg ds dev ph
                      (res\<lparr>pr_cam_t := Some (x # tl ct), pr_cam_R := Some (y # tl cr)\<rparr>) st
                    = Inr st'"
    by (simp add: log_phase_result_row0[OF ct cr] assms(1))
  from log_camera_Inr[OF assms(3)]
  have c: "at_key ''world/camera'' f (new_events s s') =
             [\<lparr>ev_path = ''world/camera'', ev_time = Some f,
               ev_body = Rigid3 (cam_t ds ! f) (q (cam_R ds ! f)) ''RDF''\<rparr>]"
    by (simp add: new_events_append at_key_defining_camera[OF assms(2)])
  from ct cr r a b c show ?thesis
    by (simp add: index2_Inr_iff camera_event_def)
qed

lemma ex_camera_run: "\<exists>s'. log_camera (as_quat ex_env) ex_ds ex_rr = Inr s'"
  by (simp add: log_camera_def log_camera_frame_def ex_env_def ex_ds_def ex_rr_def py_get_def
      rr_log_def set_time_sequence_def Let_def upt_conv_Cons)

theorem phase_camera_leading_index_one_witness:
  "\<exists>st' s'. log_phase_result ex_env () ex_ds (PyInt 0) ''motion_chunks'' ex_res ex_rr = Inr st'
     \<and> log_camera (as_quat ex_env) ex_ds ex_rr = Inr s'
     \<and> at_key ''world/camera'' 2 (new_events ex_rr st') =
         [\<lparr>ev_path = ''world/camera'', ev_time = Some 2, ev_body = Rigid3 112 1212 ''RDF''\<rparr>]
     \<and> at_key ''world/camera'' 2 (new_events ex_rr s') =
         [\<lparr>ev_path = ''world/camera'', ev_time = Some 2, ev_body = Rigid3 12 1022 ''RDF''\<rparr>]
     \<and> log_phase_result ex_env () ex_ds (PyInt 0) ''motion_chunks''
         (ex_res\<lparr>pr_cam_t := Some [[0, 0, 0], [110, 111, 112]],
                  pr_cam_R := Some [[0, 0, 0], [210, 211, 212]]\<rparr>) ex_rr = Inr st'"
proof -
  from ex_phase_run obtain st' where
    r: "log_phase_result ex_env () ex_ds (PyInt 0) ''motion_chunks'' ex_res ex_rr = Inr st'" ..
  from ex_camera_run obtain s' where c: "log_camera (as_quat ex_env) ex_ds ex_rr = Inr s'" ..
  have f: "2 < seq_len ex_ds" by (simp add: ex_ds_def)
  from phase_camera_leading_index_one[OF r f c] obtain ct cr where
    ct: "pr_cam_t ex_res = Some ct" and cr: "pr_cam_R ex_res = Some cr"
    and a: "at_key ''world/camera'' 2 (new_events ex_rr st') =
             [\<lparr>ev_path = ''world/camera'', ev_time = Some 2,
               ev_body = Rigid3 (ct ! 1 ! 2) (as_quat ex_env (cr ! 1 ! 2)) ''RDF''\<rparr>]"
    and b: "\<forall>x y. log_phase_result ex_env () ex_ds (PyInt 0) ''motion_chunks''
                      (ex_res\<lparr>pr_cam_t := Some (x # tl ct), pr_cam_R := Some (y # tl cr)\<rparr>) ex_rr
                    = Inr st'"
    and d: "at_key ''world/camera'' 2 (new_events ex_rr s') =
             [\<lparr>ev_path = ''world/camera'', ev_time = Some 2,
               ev_body = Rigid3 (cam_t ex_ds ! 2) (as_quat ex_env (cam_R ex_ds ! 2)) ''RDF''\<rparr>]"
    by blast
  from ct have ct': "ct = [[100, 101, 102], [110, 111, 112]]" by (simp add: ex_res_def)
  from cr have cr': "cr = [[200, 201, 202], [210, 211, 212]]" by (simp add: ex_res_def)
  have a': "at_key ''world/camera'' 2 (new_events ex_rr st') =
         [\<lparr>ev_path = ''world/camera'', ev_time = Some 2, ev_body = Rigid3 112 1212 ''RDF''\<rparr>]"
    using a by (simp add: ct' cr' ex_env_def)
  have d': "at_key ''world/camera'' 2 (new_events ex_rr s') =
         [\<lparr>ev_path = ''world/camera'', ev_time = Some 2, ev_body = Rigid3 12 1022 ''RDF''\<rparr>]"
    using d by (simp add: ex_ds_def ex_env_def)
  from b[rule_format, of "[0, 0, 0]" "[0, 0, 0]"]
  have b': "log_phase_result ex_env () ex_ds (PyInt 0) ''motion_chunks''
         (ex_res\<lparr>pr_cam_t := Some [[0, 0, 0], [110, 111, 112]],
                  pr_cam_R := Some [[0, 0, 0], [210, 211, 212]]\<rparr>) ex_rr = Inr st'"
    by (simp add: ct' cr')
  from r c a' d' b' show ?thesis by blast
qed

section \<open>What the skeleton logger sends\<close>

lemma log_skeleton_frame_unfold:
  "log_skeleton_frame i fr st =
     (case segments (snd fr) of Inl e \<Rightarrow> Inl e
      | Inr segs \<Rightarrow> Inr (rr_log (skeleton_path i)
           (if good_joints_xy segs = [] then Cleared
            else LineSegments (reshape_points (good_joints_xy segs)))
           (set_time_sequence (fst fr) st)))"
  unfolding log_skeleton_frame_def and_then_def Let_def
  by (cases "segments (snd fr)") simp_all

lemma log_skeleton_frame_Inr:
  fixes st :: "'a rr_state"
  assumes "log_skeleton_frame i fr st = Inr st'"
  shows "\<exists>segs. segments (snd fr) = Inr segs \<and> saved st' = saved st
          \<and> events st' = events st @ [skeleton_event i (fst fr) segs]"
proof (cases "segments (snd fr)")
  case (Inl e)
  with assms show ?thesis by (simp add: log_skeleton_frame_unfold)
next
  case (Inr segs)
  with assms have "st' = rr_log (skeleton_path i)
           (if good_joints_xy segs = [] then Cleared
            else LineSegments (reshape_points (good_joints_xy segs)))
           (set_time_sequence (fst fr) st)"
    by (simp add: log_skeleton_frame_unfold)
  then have "saved st' = saved st \<and> events st' = events st @ [skeleton_event i (fst fr) segs]"
    by (simp add: skeleton_event_def)
  with Inr show ?thesis by blast
qed

text \<open>The segments of a frame, for a frame that has them.\<close>

lemma segments_total: "segments fj = Inr segs \<Longrightarrow> segs = projr (segments fj)"
  by simp

lemma log_skeleton_track_Inr:
  fixes ds :: "('a, 'i) dataset" and st :: "'a rr_state" and tr :: "nat \<times> 'i"
  assumes "log_skeleton_track ds tr st = Inr st'"
  shows "fst tr < length (joints2d ds) \<and> saved st' = saved st
       \<and> events st' = events st @
            map (\<lambda>f. skeleton_event (fst tr) f (projr (segments (joints2d ds ! fst tr ! f))))
              [0..<length (joints2d ds ! fst tr)]"
proof -
  let ?js = "joints2d ds ! fst tr"
  from assms have r: "fst tr < length (joints2d ds)"
    and l: "for_each (log_skeleton_frame (fst tr)) (enumerate 0 ?js) st = Inr st'"
    by (auto simp: log_skeleton_track_def and_then_Inr_iff py_get_Inr_iff)
  let ?g = "\<lambda>fr :: nat \<times> joint list. [skeleton_event (fst tr) (fst fr) (projr (segments (snd fr))) :: 'a event]"
  have "saved st' = saved st \<and> events st' = events st @ concat (map ?g (enumerate 0 ?js))"
  proof (rule for_each_events[where I = "\<lambda>t. saved t = saved st" and g = ?g, OF l])
    show "saved st = saved st" by simp
  next
    fix x and t t' :: "'a rr_state"
    assume "saved t = saved st" and "log_skeleton_frame (fst tr) x t = Inr t'"
    then show "saved t' = saved st \<and> events t' = events t @ ?g x"
      using log_skeleton_frame_Inr[of "fst tr" x t t'] by auto
  qed
  moreover have "concat (map ?g (enumerate 0 ?js))
      = map (\<lambda>f. skeleton_event (fst tr) f (projr (segments (?js ! f)))) [0..<length ?js]"
    by (simp add: enumerate_0 comp_def)
  ultimately show ?thesis using r by simp
qed

lemma log_skeleton_track_segments:
  fixes ds :: "('a, 'i) dataset" and st :: "'a rr_state" and tr :: "nat \<times> 'i"
  assumes "log_skeleton_track ds tr st = Inr st'" and "f < length (joints2d ds ! fst tr)"
  shows "\<exists>segs. segments (joints2d ds ! fst tr ! f) = Inr segs"
proof -
  let ?js = "joints2d ds ! fst tr"
  from assms have l: "for_each (log_skeleton_frame (fst tr)) (enumerate 0 ?js) st = Inr st'"
    by (auto simp: log_skeleton_track_def and_then_Inr_iff py_get_Inr_iff)
  have m: "(f, ?js ! f) \<in> set (enumerate 0 ?js)"
    using assms(2) by (simp add: in_set_enumerate_eq)
  have "\<exists>(t :: 'a rr_state) t'. True \<and> log_skeleton_frame (fst tr) (f, ?js ! f) t = Inr t'"
    by (rule for_each_reaches[where I = "\<lambda>t. True", OF l _ _ m]) simp_all
  then obtain t t' where "log_skeleton_frame (fst tr) (f, ?js ! f) t = Inr (t' :: 'a rr_state)" by blast
  from log_skeleton_frame_Inr[OF this] show ?thesis by auto
qed

lemma log_skeleton_2d_Inr:
  fixes ds :: "('a, 'i) dataset" and st :: "'a rr_state"
  assumes "log_skeleton_2d ds st = Inr st'"
  shows "saved st' = saved st
       \<and> events st' = events st @
            concat (map (track_skeleton_events ds) [0..<length (track_ids ds)])"
proof -
  let ?g = "\<lambda>tr :: nat \<times> 'i. (track_skeleton_events ds (fst tr) :: 'a event list)"
  have "saved st' = saved st
      \<and> events st' = events st @ concat (map ?g (enumerate 0 (track_ids ds)))"
  proof (rule for_each_events[where I = "\<lambda>t. saved t = saved st" and g = ?g,
          OF assms[unfolded log_skeleton_2d_def]])
    show "saved st = saved st" by simp
  next
    fix x and t t' :: "'a rr_state"
    assume "saved t = saved st" and "log_skeleton_track ds x t = Inr t'"
    then show "saved t' = saved st \<and> events t' = events t @ ?g x"
      using log_skeleton_track_Inr[of ds x t t'] by (simp add: track_skeleton_events_def)
  qed
  moreover have "concat (map ?g (enumerate 0 (track_ids ds)))
      = concat (map (track_skeleton_events ds) [0..<length (track_ids ds)])"
    by (simp add: enumerate_0 comp_def)
  ultimately show ?thesis by simp
qed

lemma log_skeleton_2d_segments:
  fixes ds :: "('a, 'i) dataset" and st :: "'a rr_state"
  assumes "log_skeleton_2d ds st = Inr st'" and "i < length (track_ids ds)"
    and "f < length (joints2d ds ! i)"
  shows "\<exists>segs. segments (joints2d ds ! i ! f) = Inr segs"
proof -
  have m: "(i, track_ids ds ! i) \<in> set (enumerate 0 (track_ids ds))"
    using assms(2) by (simp add: in_set_enumerate_eq)
  have "\<exists>(t :: 'a rr_state) t'. True \<and> log_skeleton_track ds (i, track_ids ds ! i) t = Inr t'"
    by (rule for_each_reaches[where I = "\<lambda>t. True", OF assms(1)[unfolded log_skeleton_2d_def] _ _ m])
       simp_all
  then obtain t t' where "log_skeleton_track ds (i, track_ids ds ! i) t = Inr (t' :: 'a rr_state)"
    by blast
  from log_skeleton_track_segments[OF this] assms(3) show ?thesis by simp
qed

lemma at_key_skeleton:
  fixes ds :: "('a, 'i) dataset"
  assumes "i < length (track_ids ds)" and "f < length (joints2d ds ! i)"
  shows "at_key (skeleton_path i) f (concat (map (track_skeleton_events ds) [0..<length (track_ids ds)]))
         = [skeleton_event i f (projr (segments (joints2d ds ! i ! f)))]"
proof -
  let ?P = "\<lambda>e :: 'a event. ev_path e = skeleton_path i \<and> ev_time e = Some f"
  have "filter ?P (concat (map (track_skeleton_events ds) [0..<length (track_ids ds)]))
        = filter ?P (track_skeleton_events ds i)"
    by (rule filter_concat_single[OF assms(1)])
       (auto simp: track_skeleton_events_def skeleton_event_def skeleton_path_inj filter_empty_conv)
  also have "\<dots> = [skeleton_event i f (projr (segments (joints2d ds ! i ! f)))]"
    unfolding track_skeleton_events_def
    by (rule filter_map_single[OF assms(2)]) (auto simp: skeleton_event_def)
  finally show ?thesis by (simp add: at_key_def)
qed

lemma good_joints_xy_empty:
  assumes "segments fj = Inr segs" and "\<forall>j \<in> set fj. conf j \<le> 3 / 10"
  shows "good_joints_xy segs = []"
proof -
  from assms(1) have f: "fancy_index fj idcs \<noteq> Inl IndexError"
    by (auto simp: segments_def and_then_def split: sum.splits)
  then have len: "\<forall>k\<in>set idcs. k < length fj"
    by (auto simp: fancy_index_def split: if_splits)
  have "\<forall>e \<in> set skeleton_ids. fst e < length idcs"
    by (simp add: skeleton_ids_def idcs_def)
  then have "\<forall>e \<in> set skeleton_ids. fj ! (idcs ! fst e) \<in> set fj"
    using len by (auto intro!: nth_mem)
  then have "\<forall>seg \<in> set segs. conf (fst seg) \<le> 3 / 10"
    using assms(2) by (auto simp: segments_Inr[OF assms(1)])
  then show ?thesis
    by (auto simp: good_joints_xy_def joint_confidence_def filter_empty_conv min_def)
qed

lemma length_reshape_points: "length (reshape_points xs) = 2 * length xs"
  by (induction xs) (simp_all add: reshape_points_def)

lemma for_each_succeeds:
  assumes "\<And>x s. x \<in> set xs \<Longrightarrow> \<exists>s'. body x s = Inr s'"
  shows "\<exists>s'. for_each body xs s = Inr s'"
  using assms
proof (induction xs arbitrary: s)
  case Nil
  then show ?case by simp
next
  case (Cons x xs)
  from Cons.prems[of x s] obtain t where t: "body x s = Inr t" by auto
  have "\<exists>s'. for_each body xs t = Inr s'"
    by (rule Cons.IH) (simp add: Cons.prems)
  with t show ?case by simp
qed

lemma log_skeleton_frame_succeeds:
  "19 \<le> length (snd fr) \<Longrightarrow> \<exists>st'. log_skeleton_frame i fr st = Inr st'"
  using segments_ok[of "snd fr"] by (auto simp: log_skeleton_frame_unfold)

lemma log_skeleton_2d_succeeds:
  fixes ds :: "('a, 'i) dataset" and st :: "'a rr_state"
  assumes "length (track_ids ds) \<le> length (joints2d ds)"
    and "\<And>i fj. i < length (track_ids ds) \<Longrightarrow> fj \<in> set (joints2d ds ! i) \<Longrightarrow> 19 \<le> length fj"
  shows "\<exists>st'. log_skeleton_2d ds st = Inr st'"
  unfolding log_skeleton_2d_def
proof (rule for_each_succeeds)
  fix x :: "nat \<times> 'i" and s :: "'a rr_state"
  assume "x \<in> set (enumerate 0 (track_ids ds))"
  then have i: "fst x < length (track_ids ds)" by (auto simp: in_set_enumerate_eq)
  with assms(1) have g: "py_get (joints2d ds) (fst x) = Inr (joints2d ds ! fst x)"
    by (simp add: py_get_def)
  have "\<exists>s'. for_each (log_skeleton_frame (fst x)) (enumerate 0 (joints2d ds ! fst x)) s = Inr s'"
  proof (rule for_each_succeeds)
    fix fr :: "nat \<times> joint list" and t :: "'a rr_state"
    assume "fr \<in> set (enumerate 0 (joints2d ds ! fst x))"
    then have "snd fr \<in> set (joints2d ds ! fst x)"
      by (metis in_set_zipE enumerate_eq_zip prod.collapse)
    from assms(2)[OF i this] show "\<exists>s'. log_skeleton_frame (fst x) fr t = Inr s'"
      by (rule log_skeleton_frame_succeeds)
  qed
  then show "\<exists>s'. log_skeleton_track ds x s = Inr s'"
    by (simp add: log_skeleton_track_def g)
qed

lemma ex_skeleton_run: "\<exists>st'. log_skeleton_2d ex_ds ex_rr = Inr st'"
proof (rule log_skeleton_2d_succeeds)
  show "length (track_ids ex_ds) \<le> length (joints2d ex_ds)" by (simp add: ex_ds_def)
next
  fix i fj
  assume "i < length (track_ids ex_ds)" and "fj \<in> set (joints2d ex_ds ! i)"
  then have "fj = ex_frame \<or> fj = ex_blank"
    by (cases i) (auto simp: ex_ds_def)
  then show "19 \<le> length fj" by (auto simp: ex_frame_def ex_blank_def)
qed

lemma ex_good_length: "length (good_joints_xy ex_segs) = 17"
  by (simp add: good_joints_xy_def joint_confidence_def conf_def ex_segs_def ex_frame_def
      idcs_def skeleton_ids_def)

lemma ex_good: "good_joints_xy ex_segs \<noteq> []"
  using ex_good_length by auto

section \<open>The orchestrator of one run\<close>

lemma print_simps [simp]:
  "rr (print l p) = rr p" "stdout (print l p) = stdout p @ [l]" "environ (print l p) = environ p"
  by (simp_all add: print_def)

lemma on_rr_Inr_iff: "on_rr f p = Inr p' \<longleftrightarrow> (\<exists>r. f (rr p) = Inr r \<and> p' = p\<lparr>rr := r\<rparr>)"
  by (auto simp: on_rr_def and_then_Inr_iff)

text \<open>
  Claim C7. When the dataset of a run has no tracks, \<^verbatim>\<open>log_to_rrd\<close> prints the diagnostic and
  returns normally: nothing is logged, no recording file is written, and no exception
  leaves the function.
\<close>

theorem empty_dataset_skips_run:
  assumes "load_config_from_log E log_dir = Inr cfg0"
    and "expand_source_paths E cfg0 = Inr cfg"
    and "get_dataset_from_cfg E cfg = Inr ds"
    and "ds_len ds < 1"
  shows "\<exists>p'. log_to_rrd E log_dir dev phs sd p = Inr p'
          \<and> rr p' = rr p \<and> events (rr p') = events (rr p) \<and> saved (rr p') = saved (rr p)
          \<and> stdout p' = stdout p @ [log_dir, ''SOURCES '' @ repr_sources E cfg,
                                     ''No tracks in dataset, skipping'']"
  using assms by (simp add: log_to_rrd_def Let_def)

theorem empty_dataset_skips_run_witness:
  "\<exists>p'. log_to_rrd ex_env_empty ''logs/run'' (PyInt 0) [''motion_chunks''] (Some ''out'') ex_proc
           = Inr p'
     \<and> events (rr p') = [] \<and> saved (rr p') = []
     \<and> stdout p' = [''logs/run'', ''SOURCES []'', ''No tracks in dataset, skipping'']"
proof -
  have a: "load_config_from_log ex_env_empty ''logs/run'' = Inr ()"
    and b: "expand_source_paths ex_env_empty () = Inr ()"
    and c: "get_dataset_from_cfg ex_env_empty ()
            = Inr (ex_ds\<lparr>ds_len := 0, track_ids := [], vis_mask := [], joints2d := []\<rparr>)"
    and d: "ds_len (ex_ds\<lparr>ds_len := 0, track_ids := [], vis_mask := [], joints2d := []\<rparr>) < 1"
    by (simp_all add: ex_env_empty_def ex_env_def)
  from empty_dataset_skips_run[OF a b c d, of "PyInt 0" "[''motion_chunks'']" "Some ''out''" ex_proc]
  show ?thesis
    by (auto simp: ex_proc_def ex_rr_def ex_env_empty_def ex_env_def)
qed

lemma sorted_le_last: "sorted xs \<Longrightarrow> x \<in> set xs \<Longrightarrow> x \<le> last xs"
  by (induction xs) auto

lemma last_key_max:
  assumes "d \<noteq> []"
  shows "\<exists>it. last_key d = Inr it \<and> it \<in> set (map fst d) \<and> (\<forall>k \<in> set (map fst d). k \<le> it)"
proof -
  let ?ks = "sort (map fst d)"
  from assms have ne: "?ks \<noteq> []" by (metis length_0_conv length_map length_sort)
  then have "last ?ks \<in> set ?ks" by (rule last_in_set)
  moreover have "\<forall>k \<in> set ?ks. k \<le> last ?ks"
    using sorted_le_last[of ?ks] by simp
  ultimately show ?thesis using ne by (auto simp: last_key_def Let_def)
qed

text \<open>
  Claim C3. For a phase other than "input" whose directory exists, the resolver takes the
  keys of the snapshots of the directory, selects the greatest in the lexicographic order
  of strings, loads the snapshot stored under it and takes its "world" block, which is then
  logged. For the keys "000010", "000050", "000005" the selected key is "000050". A
  directory without any snapshot has no last key (the code raises IndexError there).
\<close>

theorem resolver_selects_last_key:
  assumes "phase \<noteq> ''input''"
    and "isdir E (path_join log_dir phase)"
    and "get_results_paths E (path_join log_dir phase) = Inr d"
    and "d \<noteq> []"
  shows "\<exists>it f. last_key d = Inr it
          \<and> it \<in> set (map fst d) \<and> (\<forall>k \<in> set (map fst d). k \<le> it)
          \<and> map_of d it = Some f
          \<and> load_last_result E (path_join log_dir phase)
              = and_then (load_result E f) (\<lambda>blocks. dict_lookup blocks ''world'')
          \<and> log_phase E cfg ds log_dir dev phase p
              = and_then (and_then (load_result E f) (\<lambda>blocks. dict_lookup blocks ''world''))
                  (\<lambda>res. on_rr (log_phase_result E cfg ds dev phase res) p)
          \<and> last_key [(''000010'', a), (''000050'', b), (''000005'', c)] = Inr ''000050''"
proof -
  from last_key_max[OF assms(4)] obtain it where
    k: "last_key d = Inr it" and m: "it \<in> set (map fst d)" and g: "\<forall>k \<in> set (map fst d). k \<le> it"
    by blast
  from m obtain f where f: "map_of d it = Some f"
    by (metis map_of_eq_None_iff not_Some_eq set_map)
  have l: "load_last_result E (path_join log_dir phase)
              = and_then (load_result E f) (\<lambda>blocks. dict_lookup blocks ''world'')"
    by (simp add: load_last_result_def assms(3) k dict_lookup_def f dict_get_def)
  have p: "log_phase E cfg ds log_dir dev phase p
              = and_then (and_then (load_result E f) (\<lambda>blocks. dict_lookup blocks ''world''))
                  (\<lambda>res. on_rr (log_phase_result E cfg ds dev phase res) p)"
    using assms(1,2) by (simp add: log_phase_def Let_def l)
  have e: "last_key [(''000010'', a), (''000050'', b), (''000005'', c)] = Inr ''000050''"
    by (simp add: last_key_def less_eq_char_def less_char_def)
  from k m g f l p e show ?thesis by blast
qed

theorem resolver_selects_last_key_witness:
  "last_key [(''000010'', ''a.pkl''), (''000050'', ''b.pkl''), (''000005'', ''c.pkl'')] = Inr ''000050''
   \<and> load_last_result ex_env (path_join ''logs/run'' ''motion_chunks'') = Inr ex_res
   \<and> log_phase ex_env () ex_ds ''logs/run'' (PyInt 0) ''motion_chunks'' ex_proc
       = on_rr (log_phase_result ex_env () ex_ds (PyInt 0) ''motion_chunks'' ex_res) ex_proc"
proof -
  let ?d = "[(''000010'', ''a.pkl''), (''000050'', ''b.pkl''), (''000005'', ''c.pkl'')]"
  have a: "''motion_chunks'' \<noteq> ''input''" by simp
  have b: "isdir ex_env (path_join ''logs/run'' ''motion_chunks'')"
    by (simp add: ex_env_def path_join_def)
  have c: "get_results_paths ex_env (path_join ''logs/run'' ''motion_chunks'') = Inr ?d"
    by (simp add: ex_env_def)
  have d: "?d \<noteq> []" by simp
  from resolver_selects_last_key[OF a b c d, where a = "''a.pkl''" and b = "''b.pkl''"
         and c = "''c.pkl''" and cfg = "()" and ds = ex_ds and dev = "PyInt 0" and p = ex_proc]
  obtain it f where k: "last_key ?d = Inr it" and e: "last_key ?d = Inr ''000050''"
    and f: "map_of ?d it = Some f"
    and l: "load_last_result ex_env (path_join ''logs/run'' ''motion_chunks'')
              = and_then (load_result ex_env f) (\<lambda>blocks. dict_lookup blocks ''world'')"
    and p: "log_phase ex_env () ex_ds ''logs/run'' (PyInt 0) ''motion_chunks'' ex_proc
              = and_then (and_then (load_result ex_env f) (\<lambda>blocks. dict_lookup blocks ''world''))
                  (\<lambda>res. on_rr (log_phase_result ex_env () ex_ds (PyInt 0) ''motion_chunks'' res) ex_proc)"
    by blast
  from k e have "it = ''000050''" by simp
  with f have f': "f = ''b.pkl''" by simp
  have w: "and_then (load_result ex_env ''b.pkl'') (\<lambda>blocks. dict_lookup blocks ''world'') = Inr ex_res"
    by (simp add: ex_env_def dict_lookup_def dict_get_def)
  from e l p show ?thesis by (simp add: f' w)
qed

section \<open>A missing phase directory\<close>

lemma map_sum_rr_eq_iff:
  "map_sum id rr a = map_sum id rr b \<longleftrightarrow>
     (\<exists>e. a = Inl e \<and> b = Inl e) \<or> (\<exists>p q. a = Inr p \<and> b = Inr q \<and> rr p = rr q)"
  by (cases a; cases b) auto

lemma on_rr_same_rr:
  "rr p = rr q \<Longrightarrow> map_sum id rr (on_rr f p) = map_sum id rr (on_rr f q)"
  by (cases "f (rr q)") (simp_all add: on_rr_def)

lemma log_phase_same_rr:
  assumes "rr p = rr q"
  shows "map_sum id rr (log_phase E cfg ds log_dir dev ph p)
       = map_sum id rr (log_phase E cfg ds log_dir dev ph q)"
proof -
  have a: "map_sum id rr (and_then m (\<lambda>res. on_rr (log_phase_result E cfg ds dev ph' res) p))
             = map_sum id rr (and_then m (\<lambda>res. on_rr (log_phase_result E cfg ds dev ph' res) q))"
    for m :: "py_error + 'a phase_result" and ph'
    by (cases m) (simp_all add: on_rr_same_rr[OF assms])
  show ?thesis
    unfolding log_phase_def Let_def using assms by (simp add: a)
qed

lemma for_each_same_rr:
  assumes "\<And>x p q. rr p = rr q \<Longrightarrow> map_sum id rr (body x p) = map_sum id rr (body x q)"
    and "rr p = rr q"
  shows "map_sum id rr (for_each body xs p) = map_sum id rr (for_each body xs q)"
  using assms(2)
proof (induction xs arbitrary: p q)
  case Nil
  then show ?case by simp
next
  case (Cons x xs)
  from assms(1)[OF Cons.prems, of x]
  consider e where "body x p = Inl e" "body x q = Inl e"
    | p' q' where "body x p = Inr p'" "body x q = Inr q'" "rr p' = rr q'"
    unfolding map_sum_rr_eq_iff by blast
  then show ?case
  proof cases
    case 1
    then show ?thesis by simp
  next
    case 2
    with Cons.IH[OF 2(3)] show ?thesis by simp
  qed
qed

lemma phases_same_rr:
  "rr p = rr q \<Longrightarrow>
     map_sum id rr (for_each (log_phase E cfg ds log_dir dev) phs p)
   = map_sum id rr (for_each (log_phase E cfg ds log_dir dev) phs q)"
  by (rule for_each_same_rr) (rule log_phase_same_rr)

lemma log_phase_missing:
  assumes "phase \<noteq> ''input''" and "\<not> isdir E (path_join log_dir phase)"
  shows "log_phase E cfg ds log_dir dev phase p
         = Inr (print (path_join log_dir phase @ '' does not exist, skipping'') p)"
  using assms by (simp add: log_phase_def Let_def)

lemma phases_skip_missing:
  assumes "phase \<noteq> ''input''" and "\<not> isdir E (path_join log_dir phase)"
  shows "map_sum id rr (for_each (log_phase E cfg ds log_dir dev) (pre @ phase # post) p)
       = map_sum id rr (for_each (log_phase E cfg ds log_dir dev) (pre @ post) p)"
proof (cases "for_each (log_phase E cfg ds log_dir dev) pre p")
  case (Inl e)
  then show ?thesis by (simp add: for_each_append)
next
  case (Inr p1)
  have "rr (print (path_join log_dir phase @ '' does not exist, skipping'') p1) = rr p1"
    by simp
  from phases_same_rr[OF this] Inr show ?thesis
    by (simp add: for_each_append log_phase_missing[OF assms])
qed

lemma and_then_same_rr:
  assumes "map_sum id rr a = map_sum id rr b"
    and "\<And>p q. rr p = rr q \<Longrightarrow> map_sum id rr (f p) = map_sum id rr (g q)"
  shows "map_sum id rr (and_then a f) = map_sum id rr (and_then b g)"
  using assms unfolding map_sum_rr_eq_iff[of a b] by auto

lemma log_to_rerun_skip_missing:
  assumes "phase \<noteq> ''input''" and "\<not> isdir E (path_join log_dir phase)"
  shows "map_sum id rr (log_to_rerun E cfg ds log_dir dev (pre @ phase # post) p)
       = map_sum id rr (log_to_rerun E cfg ds log_dir dev (pre @ post) p)"
proof -
  let ?p1 = "p\<lparr>rr := log_view_coordinates (rr_init (rr p))\<rparr>"
  let ?pre = "and_then (on_rr (log_input_frames ds) ?p1) (\<lambda>p2.
              and_then (on_rr (log_skeleton_2d ds) p2) (\<lambda>p3.
                on_rr (log_camera (as_quat E) ds) p3))"
  have u: "\<And>phs. log_to_rerun E cfg ds log_dir dev phs p
            = and_then ?pre (for_each (log_phase E cfg ds log_dir dev) phs)"
    by (simp add: log_to_rerun_def Let_def and_then_def split: sum.splits)
  show ?thesis
    unfolding u by (cases ?pre) (simp_all add: phases_skip_missing[OF assms])
qed

lemma log_input_frames_Inr:
  fixes ds :: "('a, 'i) dataset" and st :: "'a rr_state"
  assumes "log_input_frames ds st = Inr st'"
  shows "saved st' = saved st \<and> events st' = events st @ input_events ds"
proof -
  let ?g = "\<lambda>fr :: nat \<times> string.
              [\<lparr>ev_path = ''world/camera/image'', ev_time = Some (fst fr),
                ev_body = ImageFile (snd fr)\<rparr> :: 'a event]"
  have "saved st' = saved st
      \<and> events st' = events st @ concat (map ?g (enumerate 0 (sel_img_paths ds)))"
  proof (rule for_each_events[where I = "\<lambda>t. saved t = saved st" and g = ?g,
          OF assms[unfolded log_input_frames_def]])
    show "saved st = saved st" by simp
  next
    fix x and t t' :: "'a rr_state"
    assume "saved t = saved st" and "log_input_frame x t = Inr t'"
    then show "saved t' = saved st \<and> events t' = events t @ ?g x"
      by (auto simp: log_input_frame_def)
  qed
  moreover have "concat (map ?g (enumerate 0 (sel_img_paths ds))) = input_events ds"
    by (simp add: enumerate_0 comp_def input_events_def)
  ultimately show ?thesis by simp
qed

lemma log_input_frames_succeeds: "\<exists>st'. log_input_frames ds st = Inr st'"
  unfolding log_input_frames_def
  by (rule for_each_succeeds) (simp add: log_input_frame_def)

lemma log_to_rerun_Inr:
  fixes ds :: "('a, 'i) dataset" and p :: "'a proc"
  assumes "log_to_rerun E cfg ds log_dir dev phs p = Inr p'"
  shows "\<exists>p4. for_each (log_phase E cfg ds log_dir dev) phs p4 = Inr p'
          \<and> events (rr p4) = prelude_events (as_quat E) ds
          \<and> saved (rr p4) = saved (rr p) \<and> stdout p4 = stdout p \<and> environ p4 = environ p"
proof -
  let ?p1 = "p\<lparr>rr := log_view_coordinates (rr_init (rr p))\<rparr>"
  from assms[unfolded log_to_rerun_def Let_def and_then_Inr_iff on_rr_Inr_iff]
  obtain r2 r3 r4 where
    a: "log_input_frames ds (rr ?p1) = Inr r2"
    and b: "log_skeleton_2d ds (rr (?p1\<lparr>rr := r2\<rparr>)) = Inr r3"
    and c: "log_camera (as_quat E) ds (rr (?p1\<lparr>rr := r2, rr := r3\<rparr>)) = Inr r4"
    and l: "for_each (log_phase E cfg ds log_dir dev) phs (?p1\<lparr>rr := r2, rr := r3, rr := r4\<rparr>) = Inr p'"
    by auto
  have e1: "events (rr ?p1) = [view_event]" and s1: "saved (rr ?p1) = saved (rr p)"
    by (simp_all add: log_view_coordinates_def rr_init_def view_event_def)
  from log_input_frames_Inr[OF a] e1 s1
  have e2: "events r2 = view_event # input_events ds" and s2: "saved r2 = saved (rr p)" by simp_all
  from log_skeleton_2d_Inr[OF b] e2 s2
  have e3: "events r3 = view_event # input_events ds
              @ concat (map (track_skeleton_events ds) [0..<length (track_ids ds)])"
    and s3: "saved r3 = saved (rr p)" by simp_all
  from log_camera_Inr[OF c] e3 s3
  have e4: "events r4 = prelude_events (as_quat E) ds" and s4: "saved r4 = saved (rr p)"
    by (simp_all add: prelude_events_def)
  from l e4 s4 show ?thesis by (intro exI[of _ "?p1\<lparr>rr := r2, rr := r3, rr := r4\<rparr>"]) simp
qed

lemma ex_phase_run_any:
  "\<exists>st'. log_phase_result ex_env () ex_ds dev ph ex_res st = Inr st'"
  by (simp add: log_phase_result_def ex_env_def ex_ds_def ex_res_def dict_get_def
      log_phase_frame_def index2_def py_get_def log_track_mesh_def rr_log_def
      set_time_sequence_def Let_def upt_conv_Cons)

lemma ex_camera_run_any: "\<exists>s'. log_camera (as_quat ex_env) ex_ds st = Inr s'"
  by (simp add: log_camera_def log_camera_frame_def ex_env_def ex_ds_def py_get_def
      rr_log_def set_time_sequence_def Let_def upt_conv_Cons)

lemma ex_skeleton_run_any: "\<exists>st'. log_skeleton_2d ex_ds st = Inr st'"
proof (rule log_skeleton_2d_succeeds)
  show "length (track_ids ex_ds) \<le> length (joints2d ex_ds)" by (simp add: ex_ds_def)
next
  fix i fj
  assume "i < length (track_ids ex_ds)" and "fj \<in> set (joints2d ex_ds ! i)"
  then have "fj = ex_frame \<or> fj = ex_blank"
    by (cases i) (auto simp: ex_ds_def)
  then show "19 \<le> length fj" by (auto simp: ex_frame_def ex_blank_def)
qed

lemma ex_load_last: "load_last_result ex_env ''logs/run/motion_chunks'' = Inr ex_res"
  by (simp add: load_last_result_def ex_env_def last_key_def less_eq_char_def less_char_def
      dict_lookup_def dict_get_def)

lemma ex_log_phase_motion:
  "\<exists>p'. log_phase ex_env () ex_ds ''logs/run'' dev ''motion_chunks'' p = Inr p'
        \<and> stdout p' = stdout p \<and> saved (rr p') = saved (rr p)"
proof -
  from ex_phase_run_any obtain st' where
    r: "log_phase_result ex_env () ex_ds dev ''motion_chunks'' ex_res (rr p) = Inr st'" ..
  have d: "isdir ex_env (path_join ''logs/run'' ''motion_chunks'')"
    and j: "path_join ''logs/run'' ''motion_chunks'' = ''logs/run/motion_chunks''"
    by (simp_all add: ex_env_def path_join_def)
  have "log_phase ex_env () ex_ds ''logs/run'' dev ''motion_chunks'' p = Inr (p\<lparr>rr := st'\<rparr>)"
    using d by (simp add: log_phase_def Let_def j ex_load_last on_rr_def r)
  with log_phase_result_Inr[OF r] show ?thesis by auto
qed

lemma ex_prelude_run:
  "\<exists>p4. and_then (on_rr (log_input_frames ex_ds) (p\<lparr>rr := log_view_coordinates (rr_init (rr p))\<rparr>))
           (\<lambda>p2. and_then (on_rr (log_skeleton_2d ex_ds) p2)
                    (\<lambda>p3. on_rr (log_camera (as_quat ex_env) ex_ds) p3)) = Inr p4
        \<and> saved (rr p4) = saved (rr p) \<and> stdout p4 = stdout p"
proof -
  let ?p1 = "p\<lparr>rr := log_view_coordinates (rr_init (rr p))\<rparr>"
  from log_input_frames_succeeds obtain r2 where a: "log_input_frames ex_ds (rr ?p1) = Inr r2" ..
  from ex_skeleton_run_any obtain r3 where b: "log_skeleton_2d ex_ds r2 = Inr r3" ..
  from ex_camera_run_any obtain r4 where c: "log_camera (as_quat ex_env) ex_ds r3 = Inr r4" ..
  have s: "saved r4 = saved (rr p)"
    using log_input_frames_Inr[OF a] log_skeleton_2d_Inr[OF b] log_camera_Inr[OF c]
    by (simp add: log_view_coordinates_def rr_init_def)
  show ?thesis
    using a b c s by (simp add: on_rr_def)
qed

lemma log_to_rerun_unfold:
  "log_to_rerun E cfg ds log_dir dev phs p
   = and_then
       (and_then (on_rr (log_input_frames ds) (p\<lparr>rr := log_view_coordinates (rr_init (rr p))\<rparr>))
          (\<lambda>p2. and_then (on_rr (log_skeleton_2d ds) p2)
                   (\<lambda>p3. on_rr (log_camera (as_quat E) ds) p3)))
       (for_each (log_phase E cfg ds log_dir dev) phs)"
  by (simp add: log_to_rerun_def Let_def and_then_def split: sum.splits)

lemma ex_full_run:
  "\<exists>p'. log_to_rrd ex_env ''logs/run'' dev [''motion_chunks''] (Some ''out'') ex_proc = Inr p'
        \<and> saved (rr p') = [''out/log.rrd'']"
proof -
  let ?q = "print (''SOURCES '' @ repr_sources ex_env ()) (print ''logs/run'' ex_proc)"
  from ex_prelude_run[of ?q] obtain p4 where
    a: "and_then (on_rr (log_input_frames ex_ds) (?q\<lparr>rr := log_view_coordinates (rr_init (rr ?q))\<rparr>))
           (\<lambda>p2. and_then (on_rr (log_skeleton_2d ex_ds) p2)
                    (\<lambda>p3. on_rr (log_camera (as_quat ex_env) ex_ds) p3)) = Inr p4"
    and s4: "saved (rr p4) = saved (rr ?q)" by blast
  from ex_log_phase_motion[of dev p4] obtain p' where
    b: "log_phase ex_env () ex_ds ''logs/run'' dev ''motion_chunks'' p4 = Inr p'"
    and s: "saved (rr p') = saved (rr p4)" by blast
  have r: "log_to_rerun ex_env () ex_ds ''logs/run'' dev [''motion_chunks''] ?q = Inr p'"
    using a b by (simp add: log_to_rerun_unfold)
  have c: "load_config_from_log ex_env ''logs/run'' = Inr ()" "expand_source_paths ex_env () = Inr ()"
    "get_dataset_from_cfg ex_env () = Inr ex_ds" "\<not> ds_len ex_ds < 1"
    by (simp_all add: ex_env_def ex_ds_def)
  have "log_to_rrd ex_env ''logs/run'' dev [''motion_chunks''] (Some ''out'') ex_proc
        = Inr (p'\<lparr>rr := rr_save (path_join ''out'' ''log.rrd'') (rr p')\<rparr>)"
    using c r by (simp add: log_to_rrd_def Let_def)
  moreover have "saved (rr_save (path_join ''out'' ''log.rrd'') (rr p')) = [''out/log.rrd'']"
    using s s4 by (simp add: rr_save_def path_join_def ex_proc_def ex_rr_def)
  ultimately show ?thesis by simp
qed

section \<open>The shared camera path\<close>

lemma for_each_snoc_Inr:
  "for_each body (xs @ [x]) s = Inr s' \<longleftrightarrow> (\<exists>t. for_each body xs s = Inr t \<and> body x t = Inr s')"
proof -
  have "for_each body [x] t = body x t" for t
    by (cases "body x t") simp_all
  then show ?thesis by (simp add: for_each_append and_then_Inr_iff)
qed

lemma log_phase_Inr:
  assumes "log_phase E cfg ds log_dir dev ph q = Inr q'"
  shows "(ph \<noteq> ''input'' \<and> \<not> isdir E (path_join log_dir ph)
            \<and> q' = print (path_join log_dir ph @ '' does not exist, skipping'') q)
       \<or> ((ph = ''input'' \<or> isdir E (path_join log_dir ph))
            \<and> (\<exists>res st'. (if ph = ''input'' then get_input_dict E ds
                            else load_last_result E (path_join log_dir ph)) = Inr res
                  \<and> log_phase_result E cfg ds dev ph res (rr q) = Inr st'
                  \<and> q' = q\<lparr>rr := st'\<rparr>))"
proof (cases "ph = ''input''")
  case True
  with assms show ?thesis
    by (auto simp: log_phase_def Let_def and_then_Inr_iff on_rr_Inr_iff)
next
  case False
  show ?thesis
  proof (cases "isdir E (path_join log_dir ph)")
    case True
    with False assms show ?thesis
      by (auto simp: log_phase_def Let_def and_then_Inr_iff on_rr_Inr_iff)
  next
    case nodir: False
    with False assms show ?thesis by (simp add: log_phase_def Let_def)
  qed
qed

lemma phase_events_rigid3:
  "e \<in> set (phase_events E ds ph res verts faces) \<Longrightarrow> is_rigid3 (ev_body e)
     \<Longrightarrow> ev_path e = ''world/camera''"
  by (auto simp: phase_events_def frame_events_def camera_event_def mesh_event_def
           split: if_splits)

lemma prelude_events_rigid3:
  "e \<in> set (prelude_events q ds) \<Longrightarrow> is_rigid3 (ev_body e) \<Longrightarrow> ev_path e = ''world/camera''"
  by (auto simp: prelude_events_def view_event_def input_events_def track_skeleton_events_def
           skeleton_event_def defining_camera_events_def split: if_splits)

lemma log_phase_events:
  assumes "log_phase E cfg ds log_dir dev ph q = Inr q'"
  shows "saved (rr q') = saved (rr q)
       \<and> (\<exists>evs. events (rr q') = events (rr q) @ evs
              \<and> (\<forall>e \<in> set evs. is_rigid3 (ev_body e) \<longrightarrow> ev_path e = ''world/camera''))"
proof -
  from log_phase_Inr[OF assms]
  consider "q' = print (path_join log_dir ph @ '' does not exist, skipping'') q"
    | res st' where "log_phase_result E cfg ds dev ph res (rr q) = Inr st'" "q' = q\<lparr>rr := st'\<rparr>"
    by blast
  then show ?thesis
  proof cases
    case 1
    then show ?thesis by simp
  next
    case 2
    from log_phase_result_Inr[OF 2(1)] obtain verts faces where
      "saved st' = saved (rr q)"
      and "events st' = events (rr q) @ phase_events E ds ph res verts faces"
      by blast
    with 2(2) show ?thesis using phase_events_rigid3 by fastforce
  qed
qed

lemma phases_events:
  assumes "for_each (log_phase E cfg ds log_dir dev) phs q = Inr q'"
  shows "saved (rr q') = saved (rr q)
       \<and> (\<exists>evs. events (rr q') = events (rr q) @ evs
              \<and> (\<forall>e \<in> set evs. is_rigid3 (ev_body e) \<longrightarrow> ev_path e = ''world/camera''))"
  using assms
proof (induction phs arbitrary: q)
  case Nil
  then show ?case by simp
next
  case (Cons ph phs)
  from Cons.prems[unfolded for_each_Cons_Inr] obtain t where
    t: "log_phase E cfg ds log_dir dev ph q = Inr t"
    and r: "for_each (log_phase E cfg ds log_dir dev) phs t = Inr q'" by blast
  from log_phase_events[OF t] obtain evs1 where
    s1: "saved (rr t) = saved (rr q)" and e1: "events (rr t) = events (rr q) @ evs1"
    and c1: "\<forall>e \<in> set evs1. is_rigid3 (ev_body e) \<longrightarrow> ev_path e = ''world/camera''" by blast
  from Cons.IH[OF r] obtain evs2 where
    s2: "saved (rr q') = saved (rr t)" and e2: "events (rr q') = events (rr t) @ evs2"
    and c2: "\<forall>e \<in> set evs2. is_rigid3 (ev_body e) \<longrightarrow> ev_path e = ''world/camera''" by blast
  have "events (rr q') = events (rr q) @ (evs1 @ evs2)" using e1 e2 by simp
  moreover have "\<forall>e \<in> set (evs1 @ evs2). is_rigid3 (ev_body e) \<longrightarrow> ev_path e = ''world/camera''"
    using c1 c2 by auto
  ultimately show ?case using s1 s2 by metis
qed

lemma at_key_append: "at_key p t (xs @ ys) = at_key p t xs @ at_key p t ys"
  by (simp add: at_key_def)

lemma latest_append_single:
  "at_key p t ys = [e] \<Longrightarrow> latest p t (xs @ ys) = Some (ev_body e)"
  by (simp add: latest_def at_key_append)

lemma ex_to_rerun_run:
  "\<exists>p'. log_to_rerun ex_env () ex_ds ''logs/run'' dev [''motion_chunks''] ex_proc = Inr p'"
proof -
  from ex_prelude_run[of ex_proc] obtain p4 where
    a: "and_then (on_rr (log_input_frames ex_ds) (ex_proc\<lparr>rr := log_view_coordinates (rr_init (rr ex_proc))\<rparr>))
           (\<lambda>p2. and_then (on_rr (log_skeleton_2d ex_ds) p2)
                    (\<lambda>p3. on_rr (log_camera (as_quat ex_env) ex_ds) p3)) = Inr p4" by blast
  from ex_log_phase_motion[of dev p4] obtain p' where
    b: "log_phase ex_env () ex_ds ''logs/run'' dev ''motion_chunks'' p4 = Inr p'" by blast
  show ?thesis using a b by (simp add: log_to_rerun_unfold)
qed

section \<open>The order of the events\<close>

lemma timeline_keys_append: "timeline_keys (xs @ ys) = timeline_keys xs @ timeline_keys ys"
  by (simp add: timeline_keys_def map_filter_def)

lemma timeline_keys_const:
  "\<forall>e \<in> set es. ev_time e = Some f \<Longrightarrow> timeline_keys es = replicate (length es) f"
  by (induction es) (simp_all add: timeline_keys_def map_filter_def)

lemma timeline_keys_blocks:
  assumes "\<And>f e. e \<in> set (blk f) \<Longrightarrow> ev_time e = Some f"
  shows "set (timeline_keys (concat (map blk fs))) \<subseteq> set fs"
proof (induction fs)
  case Nil
  then show ?case by (simp add: timeline_keys_def map_filter_def)
next
  case (Cons f fs)
  have "timeline_keys (blk f) = replicate (length (blk f)) f"
    by (rule timeline_keys_const) (simp add: assms)
  with Cons show ?case by (auto simp: timeline_keys_append)
qed

lemma keys_increasing_blocks:
  assumes "\<And>f e. e \<in> set (blk f) \<Longrightarrow> ev_time e = Some f" and "sorted fs"
  shows "keys_increasing (concat (map blk fs))"
  using assms(2)
proof (induction fs)
  case Nil
  then show ?case by (simp add: keys_increasing_def timeline_keys_def map_filter_def)
next
  case (Cons f fs)
  have k: "timeline_keys (blk f) = replicate (length (blk f)) f"
    by (rule timeline_keys_const) (simp add: assms(1))
  have "set (timeline_keys (concat (map blk fs))) \<subseteq> set fs"
    by (rule timeline_keys_blocks) (rule assms(1))
  with Cons.prems have "\<forall>y \<in> set (timeline_keys (concat (map blk fs))). f \<le> y" by auto
  moreover from Cons have "sorted (timeline_keys (concat (map blk fs)))"
    by (simp add: keys_increasing_def)
  ultimately show ?case
    by (auto simp: keys_increasing_def timeline_keys_append k sorted_append)
qed

lemma pose_before_geometry_append:
  "pose_before_geometry (xs @ ys) \<longleftrightarrow>
     pose_before_geometry xs \<and> pose_before_geometry ys
     \<and> (\<forall>e \<in> set xs. is_geometry (ev_body e) \<longrightarrow>
           \<not> (\<exists>e' \<in> set ys. is_rigid3 (ev_body e') \<and> ev_time e' = ev_time e))"
  by (induction xs) auto

lemma pose_before_geometry_no_pose:
  "\<forall>e \<in> set es. \<not> is_rigid3 (ev_body e) \<Longrightarrow> pose_before_geometry es"
  by (induction es) auto

lemma pose_before_geometry_blocks:
  assumes "\<And>f e. e \<in> set (blk f) \<Longrightarrow> ev_time e = Some f"
    and "\<And>f. pose_before_geometry (blk f)" and "distinct fs"
  shows "pose_before_geometry (concat (map blk fs))"
  using assms(3)
proof (induction fs)
  case Nil
  then show ?case by simp
next
  case (Cons f fs)
  have "\<forall>e' \<in> set (concat (map blk fs)). ev_time e' \<noteq> Some f"
    using Cons.prems assms(1) by auto
  moreover have "\<forall>e \<in> set (blk f). ev_time e = Some f" using assms(1) by simp
  ultimately have "\<forall>e \<in> set (blk f). is_geometry (ev_body e) \<longrightarrow>
           \<not> (\<exists>e' \<in> set (concat (map blk fs)). is_rigid3 (ev_body e') \<and> ev_time e' = ev_time e)"
    by auto
  with Cons assms(2) show ?case by (simp add: pose_before_geometry_append)
qed

lemma frame_events_time:
  "e \<in> set (frame_events E ds ph res verts faces f) \<Longrightarrow> ev_time e = Some f"
  by (auto simp: frame_events_def camera_event_def mesh_event_def)

lemma frame_events_ordered: "pose_before_geometry (frame_events E ds ph res verts faces f)"
proof -
  have "pose_before_geometry (map (mesh_event E ds ph verts faces f) [0..<length (track_ids ds)])"
    by (rule pose_before_geometry_no_pose) (auto simp: mesh_event_def)
  then show ?thesis by (simp add: frame_events_def camera_event_def)
qed

lemma phases_append_only:
  assumes "for_each (log_phase E cfg ds log_dir dev) phs q = Inr q'"
  shows "\<exists>evs. events (rr q') = events (rr q) @ evs"
  using phases_events[OF assms] by blast

lemma ex_prelude_not_increasing: "\<not> keys_increasing (prelude_events q ex_ds @ evs)"
proof -
  have "take 4 (timeline_keys (prelude_events q ex_ds @ evs)) = [0, 1, 2, 0]"
    by (simp add: timeline_keys_append)
       (simp add: timeline_keys_def map_filter_def prelude_events_def view_event_def
          input_events_def track_skeleton_events_def skeleton_event_def ex_ds_def upt_conv_Cons)
  moreover have "\<not> sorted (take 4 xs)" if "take 4 xs = [0, 1, 2, 0 :: nat]" for xs
    using that by simp
  ultimately have "\<not> sorted (take 4 (timeline_keys (prelude_events q ex_ds @ evs)))" by blast
  then show ?thesis
    unfolding keys_increasing_def using sorted_wrt_take by blast
qed

lemma ex_prelude_not_ordered: "\<not> pose_before_geometry (prelude_events q ex_ds @ evs)"
proof -
  let ?s = "skeleton_event 0 0 (projr (segments ex_frame)) :: nat event"
  let ?c = "\<lparr>ev_path = ''world/camera'', ev_time = Some 0,
             ev_body = Rigid3 (10::nat) (q 20) ''RDF''\<rparr>"
  let ?xs = "view_event # input_events ex_ds
               @ concat (map (track_skeleton_events ex_ds) [0..<length (track_ids ex_ds)])"
  let ?ys = "concat (map (defining_camera_events q ex_ds) [0..<seq_len ex_ds]) @ evs"
  have e: "prelude_events q ex_ds @ evs = ?xs @ ?ys"
    by (simp add: prelude_events_def)
  have s: "?s \<in> set ?xs"
    by (simp add: track_skeleton_events_def ex_ds_def upt_conv_Cons)
  have c: "?c \<in> set ?ys"
    by (simp add: defining_camera_events_def ex_ds_def upt_conv_Cons)
  have g: "is_geometry (ev_body ?s)" by (simp add: skeleton_event_def)
  have r: "is_rigid3 (ev_body ?c)" by simp
  have t: "ev_time ?c = ev_time ?s" by (simp add: skeleton_event_def)
  show ?thesis
    unfolding e pose_before_geometry_append using s c g r t by blast
qed

theorem run_ordering_counterexample:
  "\<not> isl (log_to_rerun ex_env () ex_ds ''logs/run'' (PyInt 0) [''motion_chunks''] ex_proc)
   \<and> \<not> keys_increasing
         (events (rr (projr (log_to_rerun ex_env () ex_ds ''logs/run'' (PyInt 0)
                               [''motion_chunks''] ex_proc))))
   \<and> \<not> pose_before_geometry
         (events (rr (projr (log_to_rerun ex_env () ex_ds ''logs/run'' (PyInt 0)
                               [''motion_chunks''] ex_proc))))"
proof -
  from ex_to_rerun_run[of "PyInt 0"] obtain p' where
    r: "log_to_rerun ex_env () ex_ds ''logs/run'' (PyInt 0) [''motion_chunks''] ex_proc = Inr p'" ..
  from log_to_rerun_Inr[OF r] obtain p4 where
    l: "for_each (log_phase ex_env () ex_ds ''logs/run'' (PyInt 0)) [''motion_chunks''] p4 = Inr p'"
    and e4: "events (rr p4) = prelude_events (as_quat ex_env) ex_ds" by blast
  from phases_append_only[OF l] e4 obtain evs where
    e: "events (rr p') = prelude_events (as_quat ex_env) ex_ds @ evs" by auto
  show ?thesis
    by (simp add: r e ex_prelude_not_increasing ex_prelude_not_ordered)
qed

section \<open>The batch launcher: discovery, devices and dispatch\<close>

lemma map_of_setenv_same: "map_of (setenv k v e) k = Some v"
  by (simp add: setenv_def)

lemma map_of_setenv_other: "k' \<noteq> k \<Longrightarrow> map_of (setenv k v e) k' = map_of e k'"
  by (induction e) (auto simp: setenv_def)

lemma ex_discover: "discover ex_env ''logs'' = [''logs/a'', ''logs/b'']"
  by (simp add: discover_def ex_env_def)

lemma str_nat_2: "str_nat 2 = ''2''"
  by code_simp

lemma str_nat_Suc_Suc_0: "str_nat (Suc (Suc 0)) = ''2''"
  using str_nat_2 by (simp add: numeral_2_eq_2)

lemma ex_exp_name: "exp_name ''logs/b'' ''logs'' = Inr ''b''"
  by code_simp

section \<open>The skeleton overlay of a track and a frame\<close>

lemma good_joints_xy_raw:
  assumes "segments fj = Inr segs"
  shows "good_joints_xy segs =
           map (\<lambda>e. ((fst (fj ! (idcs ! fst e)), fst (snd (fj ! (idcs ! fst e)))),
                       (fst (fj ! (idcs ! snd e)), fst (snd (fj ! (idcs ! snd e))))))
             (filter (\<lambda>e. 3 / 10 < min (snd (snd (fj ! (idcs ! fst e))))
                                          (snd (snd (fj ! (idcs ! snd e))))) skeleton_ids)"
  unfolding segments_Inr[OF assms] good_joints_xy_def
  by (simp add: filter_map comp_def joint_confidence_def conf_def xy_def)

lemma reshape_points_map:
  "reshape_points (map h xs) = concat (map (\<lambda>e. [fst (h e), snd (h e)]) xs)"
  by (simp add: reshape_points_def comp_def)

lemma segments_length: "segments fj = Inr segs \<Longrightarrow> 19 \<le> length fj"
  using segments_fail[of fj] by (cases "19 \<le> length fj") auto

text \<open>
  Claim C8. For every track and every frame exactly one event is sent at the skeleton
  overlay of the track with the key of the frame. It is a clear, and no segments, when no
  edge of the edge table passes the confidence filter; otherwise it is one list of 2D
  points, the two endpoints of every edge that passes, edge after edge, each endpoint the
  x and y of the keypoint that the permutation table names. A track without any visible
  keypoint therefore receives one clear for each of its frames.
\<close>

theorem skeleton_clear_or_segments:
  fixes ds :: "('a, 'i) dataset" and st :: "'a rr_state"
  assumes "log_skeleton_2d ds st = Inr st'"
    and "i < length (track_ids ds)" and "f < length (joints2d ds ! i)"
  shows "\<exists>fj kept. fj = joints2d ds ! i ! f \<and> 19 \<le> length fj
         \<and> kept = filter (\<lambda>e. 3 / 10 < min (snd (snd (fj ! (idcs ! fst e))))
                                              (snd (snd (fj ! (idcs ! snd e))))) skeleton_ids
         \<and> at_key (skeleton_path i) f (new_events st st') =
             [\<lparr>ev_path = skeleton_path i, ev_time = Some f,
               ev_body =
                 (if kept = [] then Cleared
                  else LineSegments
                         (concat (map (\<lambda>e. [(fst (fj ! (idcs ! fst e)), fst (snd (fj ! (idcs ! fst e)))),
                                             (fst (fj ! (idcs ! snd e)), fst (snd (fj ! (idcs ! snd e))))])
                                    kept)))\<rparr>]
         \<and> ((\<forall>j \<in> set fj. snd (snd j) \<le> 3 / 10) \<longrightarrow>
              at_key (skeleton_path i) f (new_events st st') =
                [\<lparr>ev_path = skeleton_path i, ev_time = Some f, ev_body = Cleared\<rparr>])"
proof -
  define fj where "fj = joints2d ds ! i ! f"
  define kept where
    "kept = filter (\<lambda>e. 3 / 10 < min (snd (snd (fj ! (idcs ! fst e))))
                                        (snd (snd (fj ! (idcs ! snd e))))) skeleton_ids"
  define points where
    "points = concat (map (\<lambda>e. [(fst (fj ! (idcs ! fst e)), fst (snd (fj ! (idcs ! fst e)))),
                                 (fst (fj ! (idcs ! snd e)), fst (snd (fj ! (idcs ! snd e))))])
                        kept)"
  from log_skeleton_2d_segments[OF assms] obtain segs where
    s: "segments fj = Inr segs" unfolding fj_def ..
  from log_skeleton_2d_Inr[OF assms(1)]
  have "at_key (skeleton_path i) f (new_events st st')
        = [skeleton_event i f (projr (segments fj))]"
    unfolding fj_def by (simp add: new_events_append at_key_skeleton[OF assms(2) assms(3)])
  then have a: "at_key (skeleton_path i) f (new_events st st') = [skeleton_event i f segs]"
    by (simp add: s)
  have g: "good_joints_xy segs =
             map (\<lambda>e. ((fst (fj ! (idcs ! fst e)), fst (snd (fj ! (idcs ! fst e)))),
                        (fst (fj ! (idcs ! snd e)), fst (snd (fj ! (idcs ! snd e)))))) kept"
    unfolding kept_def by (rule good_joints_xy_raw[OF s])
  have e: "good_joints_xy segs = [] \<longleftrightarrow> kept = []" by (simp add: g)
  have r: "reshape_points (good_joints_xy segs) = points"
    unfolding g reshape_points_map points_def by simp
  have b: "skeleton_event i f segs =
             \<lparr>ev_path = skeleton_path i, ev_time = Some f,
               ev_body = (if kept = [] then Cleared else LineSegments points)\<rparr>"
    unfolding skeleton_event_def e r ..
  have c: "kept = []" if "\<forall>j \<in> set fj. snd (snd j) \<le> 3 / 10"
  proof -
    from that have "\<forall>j \<in> set fj. conf j \<le> 3 / 10" by (simp add: conf_def)
    from good_joints_xy_empty[OF s this] show "kept = []" by (simp add: e)
  qed
  have l: "19 \<le> length fj" by (rule segments_length[OF s])
  have main: "at_key (skeleton_path i) f (new_events st st') =
             [\<lparr>ev_path = skeleton_path i, ev_time = Some f,
               ev_body = (if kept = [] then Cleared else LineSegments points)\<rparr>]"
    unfolding a b ..
  have clr: "(\<forall>j \<in> set fj. snd (snd j) \<le> 3 / 10) \<longrightarrow>
              at_key (skeleton_path i) f (new_events st st') =
                [\<lparr>ev_path = skeleton_path i, ev_time = Some f, ev_body = Cleared\<rparr>]"
  proof
    assume "\<forall>j \<in> set fj. snd (snd j) \<le> 3 / 10"
    from c[OF this] have k: "kept = []" .
    show "at_key (skeleton_path i) f (new_events st st') =
                [\<lparr>ev_path = skeleton_path i, ev_time = Some f, ev_body = Cleared\<rparr>]"
      unfolding main k by simp
  qed
  show ?thesis
    apply (rule exI[of _ fj])
    apply (rule exI[of _ kept])
    apply (intro conjI)
        apply (rule fj_def)
       apply (rule l)
      apply (rule kept_def)
     apply (rule main[unfolded points_def])
    apply (rule clr)
    done
qed

lemma ex_pose_run: "\<exists>st'. log_skeleton_2d ex_ds_pose st = Inr st'"
proof (rule log_skeleton_2d_succeeds)
  show "length (track_ids ex_ds_pose) \<le> length (joints2d ex_ds_pose)"
    by (simp add: ex_ds_pose_def ex_ds_def)
next
  fix i fj
  assume "i < length (track_ids ex_ds_pose)" and "fj \<in> set (joints2d ex_ds_pose ! i)"
  then have "fj = ex_pose \<or> fj = ex_blank"
    by (cases i) (auto simp: ex_ds_pose_def ex_ds_def)
  then show "19 \<le> length fj" by (auto simp: ex_pose_def ex_blank_def)
qed

lemma ex_pose_kept:
  "filter (\<lambda>e. 3 / 10 < min (snd (snd (ex_pose ! (idcs ! fst e))))
                              (snd (snd (ex_pose ! (idcs ! snd e))))) skeleton_ids
   = [(15, 13), (13, 11), (16, 14), (14, 12), (11, 12), (5, 11), (6, 12), (5, 6), (5, 7),
      (6, 8), (7, 9), (8, 10), (1, 2), (1, 3), (2, 4), (3, 5), (4, 6)]"
  by (simp add: ex_pose_def idcs_def skeleton_ids_def)

theorem skeleton_clear_or_segments_witness:
  "\<exists>st'. log_skeleton_2d ex_ds_pose ex_rr = Inr st'
     \<and> at_key (skeleton_path 0) 1 (new_events ex_rr st') =
         [\<lparr>ev_path = skeleton_path 0, ev_time = Some 1, ev_body = LineSegments ex_pose_points\<rparr>]
     \<and> at_key (skeleton_path 1) 0 (new_events ex_rr st') =
         [\<lparr>ev_path = skeleton_path 1, ev_time = Some 0, ev_body = Cleared\<rparr>]
     \<and> at_key (skeleton_path 1) 1 (new_events ex_rr st') =
         [\<lparr>ev_path = skeleton_path 1, ev_time = Some 1, ev_body = Cleared\<rparr>]"
proof -
  from ex_pose_run obtain st' where r: "log_skeleton_2d ex_ds_pose ex_rr = Inr st'" ..
  have i0: "0 < length (track_ids ex_ds_pose)" and i1: "1 < length (track_ids ex_ds_pose)"
    and f01: "1 < length (joints2d ex_ds_pose ! 0)"
    and f10: "0 < length (joints2d ex_ds_pose ! 1)" and f11: "1 < length (joints2d ex_ds_pose ! 1)"
    by (simp_all add: ex_ds_pose_def ex_ds_def)
  have j01: "joints2d ex_ds_pose ! 0 ! 1 = ex_pose"
    and j10: "joints2d ex_ds_pose ! 1 ! 0 = ex_blank"
    and j11: "joints2d ex_ds_pose ! 1 ! 1 = ex_blank"
    by (simp_all add: ex_ds_pose_def ex_ds_def)
  have b: "\<forall>j \<in> set ex_blank. snd (snd j) \<le> 3 / 10"
    by (simp add: ex_blank_def)
  from skeleton_clear_or_segments[OF r i0 f01, unfolded j01] obtain fj kept where
    fj: "fj = ex_pose"
    and k: "kept = filter (\<lambda>e. 3 / 10 < min (snd (snd (fj ! (idcs ! fst e))))
                                              (snd (snd (fj ! (idcs ! snd e))))) skeleton_ids"
    and a: "at_key (skeleton_path 0) 1 (new_events ex_rr st') =
             [\<lparr>ev_path = skeleton_path 0, ev_time = Some 1,
               ev_body =
                 (if kept = [] then Cleared
                  else LineSegments
                         (concat (map (\<lambda>e. [(fst (fj ! (idcs ! fst e)), fst (snd (fj ! (idcs ! fst e)))),
                                             (fst (fj ! (idcs ! snd e)), fst (snd (fj ! (idcs ! snd e))))])
                                    kept)))\<rparr>]"
    by blast
  have k': "kept = [(15, 13), (13, 11), (16, 14), (14, 12), (11, 12), (5, 11), (6, 12), (5, 6),
                    (5, 7), (6, 8), (7, 9), (8, 10), (1, 2), (1, 3), (2, 4), (3, 5), (4, 6)]"
    unfolding k fj by (rule ex_pose_kept)
  have pts: "concat (map (\<lambda>e. [(fst (fj ! (idcs ! fst e)), fst (snd (fj ! (idcs ! fst e)))),
                               (fst (fj ! (idcs ! snd e)), fst (snd (fj ! (idcs ! snd e))))])
                      kept) = ex_pose_points"
    unfolding k' fj by (simp add: ex_pose_def idcs_def ex_pose_points_def)
  have ne: "kept \<noteq> []" by (simp add: k')
  have c01: "at_key (skeleton_path 0) 1 (new_events ex_rr st') =
         [\<lparr>ev_path = skeleton_path 0, ev_time = Some 1, ev_body = LineSegments ex_pose_points\<rparr>]"
    unfolding a pts using ne by simp
  from skeleton_clear_or_segments[OF r i1 f10] b
  have c10: "at_key (skeleton_path 1) 0 (new_events ex_rr st') =
         [\<lparr>ev_path = skeleton_path 1, ev_time = Some 0, ev_body = Cleared\<rparr>]"
    unfolding j10 by blast
  from skeleton_clear_or_segments[OF r i1 f11] b
  have c11: "at_key (skeleton_path 1) 1 (new_events ex_rr st') =
         [\<lparr>ev_path = skeleton_path 1, ev_time = Some 1, ev_body = Cleared\<rparr>]"
    unfolding j11 by blast
  from r c01 c10 c11 show ?thesis by blast
qed

section \<open>A run with a missing phase directory\<close>

lemma log_phase_skipped:
  "is_skipped E log_dir ph \<Longrightarrow>
     log_phase E cfg ds log_dir dev ph q = Inr (print (skip_message log_dir ph) q)"
  by (simp add: is_skipped_def skip_message_def log_phase_missing)

lemma log_phase_processed:
  assumes "log_phase E cfg ds log_dir dev ph q = Inr q'" and "\<not> is_skipped E log_dir ph"
  shows "\<exists>res st'. (if ph = ''input'' then get_input_dict E ds
                      else load_last_result E (path_join log_dir ph)) = Inr res
            \<and> log_phase_result E cfg ds dev ph res (rr q) = Inr st' \<and> q' = q\<lparr>rr := st'\<rparr>"
  using log_phase_Inr[OF assms(1)] assms(2) by (auto simp: is_skipped_def)

lemma phases_stdout:
  assumes "for_each (log_phase E cfg ds log_dir dev) phs q = Inr q'"
  shows "stdout q' = stdout q @ map (skip_message log_dir) (filter (is_skipped E log_dir) phs)"
  using assms
proof (induction phs arbitrary: q)
  case Nil
  then show ?case by simp
next
  case (Cons ph phs)
  from Cons.prems[unfolded for_each_Cons_Inr] obtain t where
    t: "log_phase E cfg ds log_dir dev ph q = Inr t"
    and r: "for_each (log_phase E cfg ds log_dir dev) phs t = Inr q'" by blast
  have "stdout t = stdout q @ (if is_skipped E log_dir ph then [skip_message log_dir ph] else [])"
  proof (cases "is_skipped E log_dir ph")
    case True
    with t show ?thesis by (auto simp: log_phase_skipped)
  next
    case False
    from log_phase_processed[OF t False] show ?thesis using False by auto
  qed
  with Cons.IH[OF r] show ?case by simp
qed

lemma camera_event_in_phase_events:
  "f < seq_len ds \<Longrightarrow> camera_event E res f \<in> set (phase_events E ds ph res verts faces)"
  by (auto simp: phase_events_def frame_events_def)

lemma mesh_event_in_phase_events:
  "f < seq_len ds \<Longrightarrow> i < length (track_ids ds) \<Longrightarrow>
     mesh_event E ds ph verts faces f i \<in> set (phase_events E ds ph res verts faces)"
  by (auto simp: phase_events_def frame_events_def intro!: bexI[of _ f])

lemma phases_logged:
  assumes "for_each (log_phase E cfg ds log_dir dev) phs q = Inr q'"
    and "ph \<in> set phs" and "\<not> is_skipped E log_dir ph" and "f < seq_len ds"
  shows "\<exists>res. (if ph = ''input'' then get_input_dict E ds
                 else load_last_result E (path_join log_dir ph)) = Inr res
           \<and> \<lparr>ev_path = ''world/camera'', ev_time = Some f,
               ev_body = Rigid3 (the (pr_cam_t res) ! 1 ! f)
                           (as_quat E (the (pr_cam_R res) ! 1 ! f)) ''RDF''\<rparr>
               \<in> set (events (rr q'))
           \<and> (\<forall>i < length (track_ids ds).
                 \<exists>e \<in> set (events (rr q')). ev_path e = phase_path ph i \<and> ev_time e = Some f
                                              \<and> is_geometry (ev_body e))"
  using assms(1,2)
proof (induction phs arbitrary: q)
  case Nil
  then show ?case by simp
next
  case (Cons x xs)
  from Cons.prems(1)[unfolded for_each_Cons_Inr] obtain t where
    t: "log_phase E cfg ds log_dir dev x q = Inr t"
    and r: "for_each (log_phase E cfg ds log_dir dev) xs t = Inr q'" by blast
  show ?case
  proof (cases "ph = x")
    case True
    from log_phase_processed[OF t[folded True] assms(3)] obtain res st' where
      res: "(if ph = ''input'' then get_input_dict E ds
             else load_last_result E (path_join log_dir ph)) = Inr res"
      and l: "log_phase_result E cfg ds dev ph res (rr q) = Inr st'" and t': "t = q\<lparr>rr := st'\<rparr>"
      by blast
    from log_phase_result_Inr[OF l] obtain verts faces where
      ev: "events st' = events (rr q) @ phase_events E ds ph res verts faces" by blast
    from phases_append_only[OF r] obtain more where
      m: "events (rr q') = events (rr t) @ more" by blast
    have sub: "set (phase_events E ds ph res verts faces) \<subseteq> set (events (rr q'))"
      using m ev t' by auto
    have c: "camera_event E res f \<in> set (events (rr q'))"
      using camera_event_in_phase_events[OF assms(4)] sub by blast
    have g: "\<forall>i < length (track_ids ds).
                 \<exists>e \<in> set (events (rr q')). ev_path e = phase_path ph i \<and> ev_time e = Some f
                                              \<and> is_geometry (ev_body e)"
    proof (intro allI impI)
      fix i assume "i < length (track_ids ds)"
      from mesh_event_in_phase_events[OF assms(4) this] sub
      have "mesh_event E ds ph verts faces f i \<in> set (events (rr q'))" by blast
      moreover have "ev_path (mesh_event E ds ph verts faces f i) = phase_path ph i"
        "ev_time (mesh_event E ds ph verts faces f i) = Some f"
        "is_geometry (ev_body (mesh_event E ds ph verts faces f i))"
        by (simp_all add: mesh_event_def)
      ultimately show "\<exists>e \<in> set (events (rr q')). ev_path e = phase_path ph i \<and> ev_time e = Some f
                                              \<and> is_geometry (ev_body e)" by blast
    qed
    from res c g show ?thesis unfolding camera_event_def by blast
  next
    case False
    with Cons.prems(2) have "ph \<in> set xs" by simp
    from Cons.IH[OF r this] show ?thesis .
  qed
qed

lemma log_to_rrd_Inr:
  assumes "load_config_from_log E log_dir = Inr cfg0"
    and "expand_source_paths E cfg0 = Inr cfg"
    and "get_dataset_from_cfg E cfg = Inr ds"
    and "\<not> ds_len ds < 1"
  shows "log_to_rrd E log_dir dev phs (Some sd) p =
           and_then (log_to_rerun E cfg ds log_dir dev phs
                       (print (''SOURCES '' @ repr_sources E cfg) (print log_dir p)))
             (\<lambda>p3. Inr (p3\<lparr>rr := rr_save (path_join sd ''log.rrd'') (rr p3)\<rparr>))"
  using assms by (simp add: log_to_rrd_def Let_def)

text \<open>
  Claim C6. A requested phase other than "input" whose directory does not exist makes the
  orchestrator print a diagnostic and go on with the next phase. The body of the loop
  returns normally and the loop continues with the remaining phases. When the run without
  that phase returns, the run with it returns too, with the same recording; what it printed
  is the two header lines and one diagnostic for each skipped phase, this phase among them;
  the recording is saved to \<^verbatim>\<open>log.rrd\<close>; and every other phase that is not skipped has been
  resolved and logged: its camera pose and an event for each of its tracks are in the
  recording at every frame.
\<close>

theorem missing_phase_is_skipped:
  assumes "phase \<noteq> ''input''" and "\<not> isdir E (path_join log_dir phase)"
    and "load_config_from_log E log_dir = Inr cfg0"
    and "expand_source_paths E cfg0 = Inr cfg"
    and "get_dataset_from_cfg E cfg = Inr ds"
    and "\<not> ds_len ds < 1"
    and "log_to_rrd E log_dir dev (pre @ post) (Some sd) p = Inr q"
  shows "log_phase E cfg ds log_dir dev phase p0
           = Inr (print (path_join log_dir phase @ '' does not exist, skipping'') p0)
       \<and> for_each (log_phase E cfg ds log_dir dev) (phase # post) p0
           = for_each (log_phase E cfg ds log_dir dev) post
               (print (path_join log_dir phase @ '' does not exist, skipping'') p0)
       \<and> (\<exists>p'. log_to_rrd E log_dir dev (pre @ phase # post) (Some sd) p = Inr p'
             \<and> rr p' = rr q
             \<and> stdout p' = stdout p @ [log_dir, ''SOURCES '' @ repr_sources E cfg]
                            @ map (skip_message log_dir)
                                (filter (is_skipped E log_dir) (pre @ phase # post))
             \<and> path_join log_dir phase @ '' does not exist, skipping'' \<in> set (stdout p')
             \<and> saved (rr p') = saved (rr p) @ [path_join sd ''log.rrd'']
             \<and> (\<forall>ph \<in> set (pre @ post). \<not> is_skipped E log_dir ph \<longrightarrow>
                  (\<forall>f < seq_len ds.
                     \<exists>res. (if ph = ''input'' then get_input_dict E ds
                             else load_last_result E (path_join log_dir ph)) = Inr res
                       \<and> \<lparr>ev_path = ''world/camera'', ev_time = Some f,
                           ev_body = Rigid3 (the (pr_cam_t res) ! 1 ! f)
                                       (as_quat E (the (pr_cam_R res) ! 1 ! f)) ''RDF''\<rparr>
                           \<in> set (events (rr p'))
                       \<and> (\<forall>i < length (track_ids ds).
                             \<exists>e \<in> set (events (rr p')).
                               ev_path e = phase_path ph i \<and> ev_time e = Some f
                               \<and> is_geometry (ev_body e)))))"
proof (intro conjI)
  have miss: "is_skipped E log_dir phase" using assms(1,2) by (simp add: is_skipped_def)
  show a: "log_phase E cfg ds log_dir dev phase p0
           = Inr (print (path_join log_dir phase @ '' does not exist, skipping'') p0)"
    by (rule log_phase_missing[OF assms(1,2)])
  show "for_each (log_phase E cfg ds log_dir dev) (phase # post) p0
           = for_each (log_phase E cfg ds log_dir dev) post
               (print (path_join log_dir phase @ '' does not exist, skipping'') p0)"
    by (simp add: a)
  let ?p2 = "print (''SOURCES '' @ repr_sources E cfg) (print log_dir p)"
  let ?save = "\<lambda>p3 :: 'a proc. p3\<lparr>rr := rr_save (path_join sd ''log.rrd'') (rr p3)\<rparr>"
  note u = log_to_rrd_Inr[OF assms(3-6)]
  from assms(7)[unfolded u and_then_Inr_iff] obtain q3 where
    q3: "log_to_rerun E cfg ds log_dir dev (pre @ post) ?p2 = Inr q3" and q: "q = ?save q3"
    by auto
  from log_to_rerun_skip_missing[OF assms(1,2), of cfg ds dev pre post ?p2] q3
  have "map_sum id rr (log_to_rerun E cfg ds log_dir dev (pre @ phase # post) ?p2) = Inr (rr q3)"
    by simp
  then obtain p3 where
    p3: "log_to_rerun E cfg ds log_dir dev (pre @ phase # post) ?p2 = Inr p3"
    and same: "rr p3 = rr q3"
    by (cases "log_to_rerun E cfg ds log_dir dev (pre @ phase # post) ?p2") auto
  from log_to_rerun_Inr[OF p3] obtain p4 where
    l: "for_each (log_phase E cfg ds log_dir dev) (pre @ phase # post) p4 = Inr p3"
    and s4: "saved (rr p4) = saved (rr ?p2)" and o4: "stdout p4 = stdout ?p2" by blast
  have run: "log_to_rrd E log_dir dev (pre @ phase # post) (Some sd) p = Inr (?save p3)"
    unfolding u p3 by simp
  have r: "rr (?save p3) = rr q" by (simp add: q same)
  have o: "stdout (?save p3) = stdout p @ [log_dir, ''SOURCES '' @ repr_sources E cfg]
                            @ map (skip_message log_dir)
                                (filter (is_skipped E log_dir) (pre @ phase # post))"
    using phases_stdout[OF l] o4 by simp
  have d: "path_join log_dir phase @ '' does not exist, skipping'' \<in> set (stdout (?save p3))"
    unfolding o using miss by (simp add: skip_message_def)
  have sv: "saved (rr (?save p3)) = saved (rr p) @ [path_join sd ''log.rrd'']"
    using phases_events[OF l] s4 by (simp add: rr_save_def)
  have lg: "\<forall>ph \<in> set (pre @ post). \<not> is_skipped E log_dir ph \<longrightarrow>
                  (\<forall>f < seq_len ds.
                     \<exists>res. (if ph = ''input'' then get_input_dict E ds
                             else load_last_result E (path_join log_dir ph)) = Inr res
                       \<and> \<lparr>ev_path = ''world/camera'', ev_time = Some f,
                           ev_body = Rigid3 (the (pr_cam_t res) ! 1 ! f)
                                       (as_quat E (the (pr_cam_R res) ! 1 ! f)) ''RDF''\<rparr>
                           \<in> set (events (rr (?save p3)))
                       \<and> (\<forall>i < length (track_ids ds).
                             \<exists>e \<in> set (events (rr (?save p3))).
                               ev_path e = phase_path ph i \<and> ev_time e = Some f
                               \<and> is_geometry (ev_body e)))"
  proof (intro ballI impI allI)
    fix ph f
    assume m: "ph \<in> set (pre @ post)" and n: "\<not> is_skipped E log_dir ph" and f: "f < seq_len ds"
    from m have m': "ph \<in> set (pre @ phase # post)" by auto
    have e: "events (rr (?save p3)) = events (rr p3)" by (simp add: rr_save_def)
    from phases_logged[OF l m' n f] show
      "\<exists>res. (if ph = ''input'' then get_input_dict E ds
                             else load_last_result E (path_join log_dir ph)) = Inr res
                       \<and> \<lparr>ev_path = ''world/camera'', ev_time = Some f,
                           ev_body = Rigid3 (the (pr_cam_t res) ! 1 ! f)
                                       (as_quat E (the (pr_cam_R res) ! 1 ! f)) ''RDF''\<rparr>
                           \<in> set (events (rr (?save p3)))
                       \<and> (\<forall>i < length (track_ids ds).
                             \<exists>e \<in> set (events (rr (?save p3))).
                               ev_path e = phase_path ph i \<and> ev_time e = Some f
                               \<and> is_geometry (ev_body e))"
      unfolding e .
  qed
  from run r o d sv lg
  show "\<exists>p'. log_to_rrd E log_dir dev (pre @ phase # post) (Some sd) p = Inr p'
             \<and> rr p' = rr q
             \<and> stdout p' = stdout p @ [log_dir, ''SOURCES '' @ repr_sources E cfg]
                            @ map (skip_message log_dir)
                                (filter (is_skipped E log_dir) (pre @ phase # post))
             \<and> path_join log_dir phase @ '' does not exist, skipping'' \<in> set (stdout p')
             \<and> saved (rr p') = saved (rr p) @ [path_join sd ''log.rrd'']
             \<and> (\<forall>ph \<in> set (pre @ post). \<not> is_skipped E log_dir ph \<longrightarrow>
                  (\<forall>f < seq_len ds.
                     \<exists>res. (if ph = ''input'' then get_input_dict E ds
                             else load_last_result E (path_join log_dir ph)) = Inr res
                       \<and> \<lparr>ev_path = ''world/camera'', ev_time = Some f,
                           ev_body = Rigid3 (the (pr_cam_t res) ! 1 ! f)
                                       (as_quat E (the (pr_cam_R res) ! 1 ! f)) ''RDF''\<rparr>
                           \<in> set (events (rr p'))
                       \<and> (\<forall>i < length (track_ids ds).
                             \<exists>e \<in> set (events (rr p')).
                               ev_path e = phase_path ph i \<and> ev_time e = Some f
                               \<and> is_geometry (ev_body e))))"
    by (intro exI[of _ "?save p3"] conjI)
qed

lemma ex_phase_run_input_any:
  "\<exists>st'. log_phase_result ex_env () ex_ds dev ph ex_res_input st = Inr st'"
  by (simp add: log_phase_result_def ex_env_def ex_ds_def ex_res_input_def dict_get_def
      log_phase_frame_def index2_def py_get_def log_track_mesh_def rr_log_def
      set_time_sequence_def Let_def upt_conv_Cons)

lemma ex_path_joins:
  "path_join ''logs/run'' ''motion_chunks'' = ''logs/run/motion_chunks''"
  "path_join ''logs/run'' ''init'' = ''logs/run/init''"
  "path_join ''logs/run'' ''input'' = ''logs/run/input''"
  "path_join ''out'' ''log.rrd'' = ''out/log.rrd''"
  by (simp_all add: path_join_def)

lemma ex_is_skipped:
  "is_skipped ex_env ''logs/run'' ''init''"
  "\<not> is_skipped ex_env ''logs/run'' ''input''"
  "\<not> is_skipped ex_env ''logs/run'' ''motion_chunks''"
  by (simp_all add: is_skipped_def ex_path_joins ex_env_def)

lemma ex_log_phase_any:
  assumes "ph \<in> {''input'', ''motion_chunks'', ''init''}"
  shows "\<exists>p'. log_phase ex_env () ex_ds ''logs/run'' dev ph p = Inr p'"
proof -
  from assms consider "ph = ''input''" | "ph = ''motion_chunks''" | "ph = ''init''" by auto
  then show ?thesis
  proof cases
    case 1
    from ex_phase_run_input_any obtain st' where
      "log_phase_result ex_env () ex_ds dev ''input'' ex_res_input (rr p) = Inr st'" ..
    then show ?thesis
      unfolding 1 by (simp add: log_phase_def Let_def on_rr_def) (simp add: ex_env_def)
  next
    case 2
    from ex_log_phase_motion[of dev p] show ?thesis unfolding 2 by blast
  next
    case 3
    show ?thesis unfolding 3 using ex_is_skipped(1) by (simp add: log_phase_skipped)
  qed
qed

lemma ex_run_phases:
  assumes "set phs \<subseteq> {''input'', ''motion_chunks'', ''init''}"
  shows "\<exists>q. log_to_rrd ex_env ''logs/run'' dev phs (Some ''out'') ex_proc = Inr q"
proof -
  let ?q = "print (''SOURCES '' @ repr_sources ex_env ()) (print ''logs/run'' ex_proc)"
  from ex_prelude_run[of ?q] obtain p4 where
    a: "and_then (on_rr (log_input_frames ex_ds) (?q\<lparr>rr := log_view_coordinates (rr_init (rr ?q))\<rparr>))
           (\<lambda>p2. and_then (on_rr (log_skeleton_2d ex_ds) p2)
                    (\<lambda>p3. on_rr (log_camera (as_quat ex_env) ex_ds) p3)) = Inr p4" by blast
  have "\<exists>p'. for_each (log_phase ex_env () ex_ds ''logs/run'' dev) phs p4 = Inr p'"
    by (rule for_each_succeeds) (use assms ex_log_phase_any in blast)
  then obtain p' where
    b: "for_each (log_phase ex_env () ex_ds ''logs/run'' dev) phs p4 = Inr p'" ..
  have r: "log_to_rerun ex_env () ex_ds ''logs/run'' dev phs ?q = Inr p'"
    unfolding log_to_rerun_unfold a using b by simp
  have c: "load_config_from_log ex_env ''logs/run'' = Inr ()" "expand_source_paths ex_env () = Inr ()"
    "get_dataset_from_cfg ex_env () = Inr ex_ds" "\<not> ds_len ex_ds < 1"
    by (simp_all add: ex_env_def ex_ds_def)
  show ?thesis
    unfolding log_to_rrd_Inr[OF c] r by simp
qed

theorem missing_phase_is_skipped_witness:
  "\<exists>p'. log_to_rrd ex_env ''logs/run'' (PyInt 0) [''input'', ''init'', ''motion_chunks'']
           (Some ''out'') ex_proc = Inr p'
     \<and> stdout p' = [''logs/run'', ''SOURCES []'', ''logs/run/init does not exist, skipping'']
     \<and> saved (rr p') = [''out/log.rrd'']
     \<and> \<lparr>ev_path = ''world/camera'', ev_time = Some 2, ev_body = Rigid3 112 1212 ''RDF''\<rparr>
         \<in> set (events (rr p'))
     \<and> (\<exists>e \<in> set (events (rr p')).
           ev_path e = phase_path ''motion_chunks'' 1 \<and> ev_time e = Some 2
           \<and> is_geometry (ev_body e))"
proof -
  have a: "''init'' \<noteq> ''input''" by simp
  have b: "\<not> isdir ex_env (path_join ''logs/run'' ''init'')"
    by (simp add: ex_path_joins ex_env_def)
  have c: "load_config_from_log ex_env ''logs/run'' = Inr ()" "expand_source_paths ex_env () = Inr ()"
    "get_dataset_from_cfg ex_env () = Inr ex_ds" "\<not> ds_len ex_ds < 1"
    by (simp_all add: ex_env_def ex_ds_def)
  have "\<exists>q. log_to_rrd ex_env ''logs/run'' (PyInt 0) ([''input''] @ [''motion_chunks''])
              (Some ''out'') ex_proc = Inr q"
    by (rule ex_run_phases) simp
  then obtain q where
    q: "log_to_rrd ex_env ''logs/run'' (PyInt 0) ([''input''] @ [''motion_chunks''])
          (Some ''out'') ex_proc = Inr q" ..
  from missing_phase_is_skipped[OF a b c q, of ex_proc] obtain p' where
    r: "log_to_rrd ex_env ''logs/run'' (PyInt 0) ([''input''] @ ''init'' # [''motion_chunks''])
          (Some ''out'') ex_proc = Inr p'"
    and o: "stdout p' = stdout ex_proc @ [''logs/run'', ''SOURCES '' @ repr_sources ex_env ()]
                            @ map (skip_message ''logs/run'')
                                (filter (is_skipped ex_env ''logs/run'')
                                   ([''input''] @ ''init'' # [''motion_chunks'']))"
    and sv: "saved (rr p') = saved (rr ex_proc) @ [path_join ''out'' ''log.rrd'']"
    and lg: "\<forall>ph \<in> set ([''input''] @ [''motion_chunks'']). \<not> is_skipped ex_env ''logs/run'' ph \<longrightarrow>
                  (\<forall>f < seq_len ex_ds.
                     \<exists>res. (if ph = ''input'' then get_input_dict ex_env ex_ds
                             else load_last_result ex_env (path_join ''logs/run'' ph)) = Inr res
                       \<and> \<lparr>ev_path = ''world/camera'', ev_time = Some f,
                           ev_body = Rigid3 (the (pr_cam_t res) ! 1 ! f)
                                       (as_quat ex_env (the (pr_cam_R res) ! 1 ! f)) ''RDF''\<rparr>
                           \<in> set (events (rr p'))
                       \<and> (\<forall>i < length (track_ids ex_ds).
                             \<exists>e \<in> set (events (rr p')).
                               ev_path e = phase_path ph i \<and> ev_time e = Some f
                               \<and> is_geometry (ev_body e)))"
    by blast
  have r': "log_to_rrd ex_env ''logs/run'' (PyInt 0) [''input'', ''init'', ''motion_chunks'']
           (Some ''out'') ex_proc = Inr p'"
    using r by simp
  have o': "stdout p' = [''logs/run'', ''SOURCES []'', ''logs/run/init does not exist, skipping'']"
    unfolding o by (simp add: ex_is_skipped skip_message_def ex_path_joins ex_proc_def)
       (simp add: ex_env_def)
  have sv': "saved (rr p') = [''out/log.rrd'']"
    unfolding sv by (simp add: ex_path_joins ex_proc_def ex_rr_def)
  have m: "''motion_chunks'' \<in> set ([''input''] @ [''motion_chunks''])" by simp
  have f: "2 < seq_len ex_ds" and i: "1 < length (track_ids ex_ds)" by (simp_all add: ex_ds_def)
  from lg[rule_format, OF m ex_is_skipped(3) f] obtain res where
    res: "(if ''motion_chunks'' = ''input'' then get_input_dict ex_env ex_ds
           else load_last_result ex_env (path_join ''logs/run'' ''motion_chunks'')) = Inr res"
    and cam: "\<lparr>ev_path = ''world/camera'', ev_time = Some 2,
                ev_body = Rigid3 (the (pr_cam_t res) ! 1 ! 2)
                            (as_quat ex_env (the (pr_cam_R res) ! 1 ! 2)) ''RDF''\<rparr>
                \<in> set (events (rr p'))"
    and ms: "\<forall>i < length (track_ids ex_ds).
                \<exists>e \<in> set (events (rr p')).
                  ev_path e = phase_path ''motion_chunks'' i \<and> ev_time e = Some 2
                  \<and> is_geometry (ev_body e)"
    by blast
  from res have "res = ex_res" by (simp add: ex_path_joins ex_load_last)
  with cam have cam': "\<lparr>ev_path = ''world/camera'', ev_time = Some 2, ev_body = Rigid3 112 1212 ''RDF''\<rparr>
         \<in> set (events (rr p'))"
    by (simp add: ex_res_def ex_env_def)
  from ms i have ms': "\<exists>e \<in> set (events (rr p')).
           ev_path e = phase_path ''motion_chunks'' 1 \<and> ev_time e = Some 2
           \<and> is_geometry (ev_body e)" by blast
  from r' o' sv' cam' ms' show ?thesis by blast
qed

section \<open>The camera pose that a recording shows\<close>

lemma phases_all_skipped:
  assumes "\<forall>s \<in> set sk. is_skipped E log_dir s"
    and "for_each (log_phase E cfg ds log_dir dev) sk q = Inr q'"
  shows "rr q' = rr q"
  using assms by (induction sk arbitrary: q) (auto simp: log_phase_skipped)

lemma latest_prelude:
  assumes "f < seq_len ds"
  shows "latest ''world/camera'' f (prelude_events q ds)
         = Some (Rigid3 (cam_t ds ! f) (q (cam_R ds ! f)) ''RDF'')"
proof -
  have "prelude_events q ds
        = (view_event # input_events ds
             @ concat (map (track_skeleton_events ds) [0..<length (track_ids ds)]))
          @ concat (map (defining_camera_events q ds) [0..<seq_len ds])"
    by (simp add: prelude_events_def)
  then show ?thesis
    by (simp only: latest_append_single[OF at_key_defining_camera[OF assms]]) simp
qed

text \<open>
  Claim C5. Every rigid-transform event of a run, from the defining camera and from every
  phase, has the entity path "world/camera", never a path under a phase. So, with the
  viewer showing for a path and a key the payload logged last, the camera pose shown at
  every frame after a run is the one of the phase that was processed last, whatever phases
  were processed before it and whatever phases were skipped after it; when no phase was
  processed it is the pose of the defining camera.
\<close>

theorem shared_camera_path:
  assumes "log_to_rerun E cfg ds log_dir dev phs p = Inr p'"
  shows "(\<forall>e \<in> set (events (rr p')). is_rigid3 (ev_body e) \<longrightarrow> ev_path e = ''world/camera'')
       \<and> (\<forall>ps ph sk f. phs = ps @ ph # sk
                   \<and> (ph = ''input'' \<or> isdir E (path_join log_dir ph))
                   \<and> (\<forall>s \<in> set sk. s \<noteq> ''input'' \<and> \<not> isdir E (path_join log_dir s))
                   \<and> f < seq_len ds \<longrightarrow>
            (\<exists>res. (if ph = ''input'' then get_input_dict E ds
                     else load_last_result E (path_join log_dir ph)) = Inr res
                 \<and> latest ''world/camera'' f (events (rr p'))
                     = Some (Rigid3 (the (pr_cam_t res) ! 1 ! f)
                               (as_quat E (the (pr_cam_R res) ! 1 ! f)) ''RDF'')))
       \<and> (\<forall>f. (\<forall>s \<in> set phs. s \<noteq> ''input'' \<and> \<not> isdir E (path_join log_dir s))
                \<and> f < seq_len ds \<longrightarrow>
            latest ''world/camera'' f (events (rr p'))
              = Some (Rigid3 (cam_t ds ! f) (as_quat E (cam_R ds ! f)) ''RDF''))"
proof (intro conjI allI impI)
  from log_to_rerun_Inr[OF assms] obtain p4 where
    l: "for_each (log_phase E cfg ds log_dir dev) phs p4 = Inr p'"
    and e4: "events (rr p4) = prelude_events (as_quat E) ds" by blast
  from phases_events[OF l] obtain evs where
    "events (rr p') = events (rr p4) @ evs"
    and "\<forall>e \<in> set evs. is_rigid3 (ev_body e) \<longrightarrow> ev_path e = ''world/camera''" by blast
  with e4 show "\<forall>e \<in> set (events (rr p')). is_rigid3 (ev_body e) \<longrightarrow> ev_path e = ''world/camera''"
    using prelude_events_rigid3 by fastforce
next
  fix ps ph sk f
  assume h: "phs = ps @ ph # sk
             \<and> (ph = ''input'' \<or> isdir E (path_join log_dir ph))
             \<and> (\<forall>s \<in> set sk. s \<noteq> ''input'' \<and> \<not> isdir E (path_join log_dir s))
             \<and> f < seq_len ds"
  from log_to_rerun_Inr[OF assms] obtain p4 where
    l: "for_each (log_phase E cfg ds log_dir dev) phs p4 = Inr p'" by blast
  from h have "phs = ps @ ph # sk" by simp
  from l[unfolded this for_each_append and_then_Inr_iff for_each_Cons_Inr] obtain p5 p6 where
    s: "log_phase E cfg ds log_dir dev ph p5 = Inr p6"
    and k: "for_each (log_phase E cfg ds log_dir dev) sk p6 = Inr p'"
    by blast
  from h have "\<forall>s \<in> set sk. is_skipped E log_dir s" by (simp add: is_skipped_def)
  from phases_all_skipped[OF this k] have same: "rr p' = rr p6" .
  from h have "\<not> is_skipped E log_dir ph" by (auto simp: is_skipped_def)
  from log_phase_processed[OF s this] obtain res st' where
    res: "(if ph = ''input'' then get_input_dict E ds
           else load_last_result E (path_join log_dir ph)) = Inr res"
    and r: "log_phase_result E cfg ds dev ph res (rr p5) = Inr st'" and p6: "p6 = p5\<lparr>rr := st'\<rparr>"
    by blast
  from log_phase_result_Inr[OF r] obtain verts faces where
    ev: "events st' = events (rr p5) @ phase_events E ds ph res verts faces" by blast
  from h have f: "f < seq_len ds" by simp
  have "latest ''world/camera'' f (events (rr p')) = Some (ev_body (camera_event E res f))"
    unfolding same p6 using ev by (simp add: latest_append_single[OF at_key_camera[OF f]])
  with res show "\<exists>res. (if ph = ''input'' then get_input_dict E ds
                     else load_last_result E (path_join log_dir ph)) = Inr res
                 \<and> latest ''world/camera'' f (events (rr p'))
                     = Some (Rigid3 (the (pr_cam_t res) ! 1 ! f)
                               (as_quat E (the (pr_cam_R res) ! 1 ! f)) ''RDF'')"
    by (auto simp: camera_event_def)
next
  fix f
  assume h: "(\<forall>s \<in> set phs. s \<noteq> ''input'' \<and> \<not> isdir E (path_join log_dir s)) \<and> f < seq_len ds"
  from log_to_rerun_Inr[OF assms] obtain p4 where
    l: "for_each (log_phase E cfg ds log_dir dev) phs p4 = Inr p'"
    and e4: "events (rr p4) = prelude_events (as_quat E) ds" by blast
  from h have "\<forall>s \<in> set phs. is_skipped E log_dir s" by (simp add: is_skipped_def)
  from phases_all_skipped[OF this l] have "rr p' = rr p4" .
  with e4 h show "latest ''world/camera'' f (events (rr p'))
              = Some (Rigid3 (cam_t ds ! f) (as_quat E (cam_R ds ! f)) ''RDF'')"
    by (simp add: latest_prelude)
qed

lemma ex_to_rerun_phases:
  assumes "set phs \<subseteq> {''input'', ''motion_chunks'', ''init''}"
  shows "\<exists>p'. log_to_rerun ex_env () ex_ds ''logs/run'' dev phs ex_proc = Inr p'"
proof -
  from ex_prelude_run[of ex_proc] obtain p4 where
    a: "and_then (on_rr (log_input_frames ex_ds)
                    (ex_proc\<lparr>rr := log_view_coordinates (rr_init (rr ex_proc))\<rparr>))
           (\<lambda>p2. and_then (on_rr (log_skeleton_2d ex_ds) p2)
                    (\<lambda>p3. on_rr (log_camera (as_quat ex_env) ex_ds) p3)) = Inr p4" by blast
  have "\<exists>p'. for_each (log_phase ex_env () ex_ds ''logs/run'' dev) phs p4 = Inr p'"
    by (rule for_each_succeeds) (use assms ex_log_phase_any in blast)
  then show ?thesis unfolding log_to_rerun_unfold a by simp
qed

theorem shared_camera_path_witness:
  "(\<exists>p'. log_to_rerun ex_env () ex_ds ''logs/run'' (PyInt 0)
            [''input'', ''motion_chunks'', ''init''] ex_proc = Inr p'
      \<and> (\<forall>e \<in> set (events (rr p')). is_rigid3 (ev_body e) \<longrightarrow> ev_path e = ''world/camera'')
      \<and> latest ''world/camera'' 2 (events (rr p')) = Some (Rigid3 112 1212 ''RDF''))
   \<and> (\<exists>p'. log_to_rerun ex_env () ex_ds ''logs/run'' (PyInt 0)
            [''motion_chunks'', ''input''] ex_proc = Inr p'
      \<and> latest ''world/camera'' 2 (events (rr p')) = Some (Rigid3 52 1072 ''RDF''))
   \<and> (\<exists>p'. log_to_rerun ex_env () ex_ds ''logs/run'' (PyInt 0) [''init''] ex_proc = Inr p'
      \<and> latest ''world/camera'' 2 (events (rr p')) = Some (Rigid3 12 1022 ''RDF''))"
proof (intro conjI)
  have f: "2 < seq_len ex_ds" by (simp add: ex_ds_def)
  have dm: "isdir ex_env (path_join ''logs/run'' ''motion_chunks'')"
    and di: "\<not> isdir ex_env (path_join ''logs/run'' ''init'')"
    by (simp_all add: ex_path_joins ex_env_def)
  show "\<exists>p'. log_to_rerun ex_env () ex_ds ''logs/run'' (PyInt 0)
            [''input'', ''motion_chunks'', ''init''] ex_proc = Inr p'
      \<and> (\<forall>e \<in> set (events (rr p')). is_rigid3 (ev_body e) \<longrightarrow> ev_path e = ''world/camera'')
      \<and> latest ''world/camera'' 2 (events (rr p')) = Some (Rigid3 112 1212 ''RDF'')"
  proof -
    have "\<exists>p'. log_to_rerun ex_env () ex_ds ''logs/run'' (PyInt 0)
            [''input'', ''motion_chunks'', ''init''] ex_proc = Inr p'"
      by (rule ex_to_rerun_phases) simp
    then obtain p' where r: "log_to_rerun ex_env () ex_ds ''logs/run'' (PyInt 0)
            [''input'', ''motion_chunks'', ''init''] ex_proc = Inr p'" ..
    note t = shared_camera_path[OF r]
    have h: "[''input'', ''motion_chunks'', ''init''] = [''input''] @ ''motion_chunks'' # [''init'']
              \<and> (''motion_chunks'' = ''input'' \<or> isdir ex_env (path_join ''logs/run'' ''motion_chunks''))
              \<and> (\<forall>s \<in> set [''init'']. s \<noteq> ''input'' \<and> \<not> isdir ex_env (path_join ''logs/run'' s))
              \<and> 2 < seq_len ex_ds"
      using dm di f by simp
    from t[THEN conjunct2, THEN conjunct1, rule_format, OF h]
    have "latest ''world/camera'' 2 (events (rr p')) = Some (Rigid3 112 1212 ''RDF'')"
      by (simp add: ex_path_joins ex_load_last) (simp add: ex_res_def ex_env_def)
    with r t show ?thesis by blast
  qed
  show "\<exists>p'. log_to_rerun ex_env () ex_ds ''logs/run'' (PyInt 0)
            [''motion_chunks'', ''input''] ex_proc = Inr p'
      \<and> latest ''world/camera'' 2 (events (rr p')) = Some (Rigid3 52 1072 ''RDF'')"
  proof -
    have "\<exists>p'. log_to_rerun ex_env () ex_ds ''logs/run'' (PyInt 0)
            [''motion_chunks'', ''input''] ex_proc = Inr p'"
      by (rule ex_to_rerun_phases) simp
    then obtain p' where r: "log_to_rerun ex_env () ex_ds ''logs/run'' (PyInt 0)
            [''motion_chunks'', ''input''] ex_proc = Inr p'" ..
    note t = shared_camera_path[OF r]
    have h: "[''motion_chunks'', ''input''] = [''motion_chunks''] @ ''input'' # []
              \<and> (''input'' = ''input'' \<or> isdir ex_env (path_join ''logs/run'' ''input''))
              \<and> (\<forall>s \<in> set []. s \<noteq> ''input'' \<and> \<not> isdir ex_env (path_join ''logs/run'' s))
              \<and> 2 < seq_len ex_ds"
      using f by simp
    from t[THEN conjunct2, THEN conjunct1, rule_format, OF h]
    have "latest ''world/camera'' 2 (events (rr p')) = Some (Rigid3 52 1072 ''RDF'')"
      by (simp add: ex_env_def ex_res_input_def)
    with r show ?thesis by blast
  qed
  show "\<exists>p'. log_to_rerun ex_env () ex_ds ''logs/run'' (PyInt 0) [''init''] ex_proc = Inr p'
      \<and> latest ''world/camera'' 2 (events (rr p')) = Some (Rigid3 12 1022 ''RDF'')"
  proof -
    have "\<exists>p'. log_to_rerun ex_env () ex_ds ''logs/run'' (PyInt 0) [''init''] ex_proc = Inr p'"
      by (rule ex_to_rerun_phases) simp
    then obtain p' where
      r: "log_to_rerun ex_env () ex_ds ''logs/run'' (PyInt 0) [''init''] ex_proc = Inr p'" ..
    note t = shared_camera_path[OF r]
    have h: "(\<forall>s \<in> set [''init'']. s \<noteq> ''input'' \<and> \<not> isdir ex_env (path_join ''logs/run'' s))
              \<and> 2 < seq_len ex_ds"
      using di f by simp
    from t[THEN conjunct2, THEN conjunct2, rule_format, OF h]
    have "latest ''world/camera'' 2 (events (rr p')) = Some (Rigid3 12 1022 ''RDF'')"
      by (simp add: ex_env_def ex_ds_def)
    with r show ?thesis by blast
  qed
qed

section \<open>The order of the events within a pass\<close>

lemma timeline_keys_Nil [simp]: "timeline_keys [] = []"
  by (simp add: timeline_keys_def map_filter_def)

lemma timeline_keys_map:
  assumes "\<And>x. ev_time (h x) = Some (k x)"
  shows "timeline_keys (map h xs) = map k xs"
  by (induction xs) (simp_all add: timeline_keys_def map_filter_def assms)

lemma timeline_keys_concat:
  "timeline_keys (concat (map g xs)) = concat (map (\<lambda>x. timeline_keys (g x)) xs)"
  by (induction xs) (simp_all add: timeline_keys_append)

lemma nth_concat_blocks:
  assumes "\<And>x. x \<in> set xs \<Longrightarrow> length (g x) = k" and "m < length xs" and "j < k"
  shows "concat (map g xs) ! (m * k + j) = g (xs ! m) ! j"
  using assms
proof (induction xs arbitrary: m)
  case Nil
  then show ?case by simp
next
  case (Cons x xs)
  have lx: "length (g x) = k" using Cons.prems(1) by simp
  show ?case
  proof (cases m)
    case 0
    with Cons.prems(3) lx show ?thesis by (simp add: nth_append)
  next
    case (Suc m')
    have "concat (map g xs) ! (m' * k + j) = g (xs ! m') ! j"
      by (rule Cons.IH) (use Cons.prems Suc in auto)
    then show ?thesis using Suc lx by (simp add: nth_append)
  qed
qed

lemma length_concat_blocks:
  assumes "\<And>x. x \<in> set xs \<Longrightarrow> length (g x) = k"
  shows "length (concat (map g xs)) = length xs * k"
  using assms by (induction xs) simp_all

lemma length_frame_events:
  "length (frame_events E ds ph res verts faces f) = Suc (length (track_ids ds))"
  by (simp add: frame_events_def)

lemma sorted_blocks: "sorted (concat (map (\<lambda>f. replicate (k f) f) [0..<n]))"
  by (induction n) (auto simp: sorted_append)

text \<open>
  Claim C4, as amended. Within each logging pass the frames are logged in increasing order
  of the timeline key: the input frames have the keys 0, 1, ...; the skeleton events have
  them track after track, each track starting again at 0; the defining camera has each key
  twice, for the pinhole and for the pose; a phase pass has each key once for the pose and
  then once for each track. Within a phase pass the camera pose event of frame f is at
  position f * (1 + number of tracks) of the pass and the mesh event of track i of that
  frame at the position 1 + i after it, so the pose of a frame is emitted before every mesh
  of the frame, and no pose follows a mesh of the same key.
\<close>

theorem phase_pass_ordering:
  fixes ds :: "('a, 'i) dataset"
  assumes "log_input_frames ds s0 = Inr s0'"
    and "log_skeleton_2d ds s1 = Inr s1'"
    and "log_camera q ds s2 = Inr s2'"
    and "log_phase_result E cfg ds dev ph res st = Inr st'"
  shows "timeline_keys (new_events s0 s0') = [0..<length (sel_img_paths ds)]
       \<and> timeline_keys (new_events s1 s1')
           = concat (map (\<lambda>i. [0..<length (joints2d ds ! i)]) [0..<length (track_ids ds)])
       \<and> timeline_keys (new_events s2 s2') = concat (map (\<lambda>f. [f, f]) [0..<seq_len ds])
       \<and> timeline_keys (new_events st st')
           = concat (map (\<lambda>f. replicate (Suc (length (track_ids ds))) f) [0..<seq_len ds])
       \<and> keys_increasing (new_events s0 s0') \<and> keys_increasing (new_events s2 s2')
       \<and> keys_increasing (new_events st st')
       \<and> pose_before_geometry (new_events st st')
       \<and> length (new_events st st') = seq_len ds * Suc (length (track_ids ds))
       \<and> (\<forall>f < seq_len ds.
            new_events st st' ! (f * Suc (length (track_ids ds)))
              = \<lparr>ev_path = ''world/camera'', ev_time = Some f,
                 ev_body = Rigid3 (the (pr_cam_t res) ! 1 ! f)
                             (as_quat E (the (pr_cam_R res) ! 1 ! f)) ''RDF''\<rparr>
            \<and> (\<forall>i < length (track_ids ds).
                  ev_path (new_events st st' ! (f * Suc (length (track_ids ds)) + Suc i))
                    = phase_path ph i
                  \<and> ev_time (new_events st st' ! (f * Suc (length (track_ids ds)) + Suc i))
                    = Some f
                  \<and> is_geometry
                      (ev_body (new_events st st' ! (f * Suc (length (track_ids ds)) + Suc i)))))"
proof -
  let ?n = "length (track_ids ds)"
  have k0: "timeline_keys (new_events s0 s0') = [0..<length (sel_img_paths ds)]"
    using log_input_frames_Inr[OF assms(1)]
    by (simp add: new_events_append input_events_def timeline_keys_map[where k = "\<lambda>f. f"])
  have t1: "timeline_keys (track_skeleton_events ds i :: 'a event list) = [0..<length (joints2d ds ! i)]"
    for i
    unfolding track_skeleton_events_def
    by (simp add: timeline_keys_map[where k = "\<lambda>f. f"] skeleton_event_def)
  have k1: "timeline_keys (new_events s1 s1')
           = concat (map (\<lambda>i. [0..<length (joints2d ds ! i)]) [0..<length (track_ids ds)])"
    using log_skeleton_2d_Inr[OF assms(2)]
    by (simp add: new_events_append timeline_keys_concat t1)
  have t2: "timeline_keys (defining_camera_events q ds f) = [f, f]" for f
    by (simp add: defining_camera_events_def timeline_keys_def map_filter_def)
  have k2: "timeline_keys (new_events s2 s2') = concat (map (\<lambda>f. [f, f]) [0..<seq_len ds])"
    using log_camera_Inr[OF assms(3)]
    by (simp add: new_events_append timeline_keys_concat t2)
  from log_phase_result_Inr[OF assms(4)] obtain verts faces where
    ev: "events st' = events st @ phase_events E ds ph res verts faces" by blast
  have ne: "new_events st st' = concat (map (frame_events E ds ph res verts faces) [0..<seq_len ds])"
    by (simp add: new_events_append[OF ev] phase_events_def)
  have t3: "timeline_keys (frame_events E ds ph res verts faces f) = replicate (Suc ?n) f" for f
    using timeline_keys_const[of "frame_events E ds ph res verts faces f" f]
    by (simp add: frame_events_time length_frame_events)
  have k3: "timeline_keys (new_events st st')
           = concat (map (\<lambda>f. replicate (Suc ?n) f) [0..<seq_len ds])"
    unfolding ne by (simp add: timeline_keys_concat t3)
  have i0: "keys_increasing (new_events s0 s0')" by (simp add: keys_increasing_def k0)
  have "concat (map (\<lambda>f. [f, f]) [0..<seq_len ds])
        = concat (map (\<lambda>f. replicate 2 f) [0..<seq_len ds])"
    by (simp add: numeral_2_eq_2)
  then have i2: "keys_increasing (new_events s2 s2')"
    unfolding keys_increasing_def k2 by (simp only: sorted_blocks)
  have i3: "keys_increasing (new_events st st')"
    unfolding keys_increasing_def k3 by (rule sorted_blocks)
  have pb: "pose_before_geometry (new_events st st')"
    unfolding ne
    by (rule pose_before_geometry_blocks) (simp_all add: frame_events_time frame_events_ordered)
  have len: "length (new_events st st') = seq_len ds * Suc ?n"
    unfolding ne by (simp add: length_concat_blocks[where k = "Suc ?n"] length_frame_events)
  have nth: "new_events st st' ! (f * Suc ?n + j) = frame_events E ds ph res verts faces f ! j"
    if "f < seq_len ds" and "j < Suc ?n" for f j
    unfolding ne
    using nth_concat_blocks[where g = "frame_events E ds ph res verts faces"
        and xs = "[0..<seq_len ds]" and k = "Suc ?n" and m = f and j = j] that
    by (simp add: length_frame_events)
  have pos: "\<forall>f < seq_len ds.
            new_events st st' ! (f * Suc ?n)
              = \<lparr>ev_path = ''world/camera'', ev_time = Some f,
                 ev_body = Rigid3 (the (pr_cam_t res) ! 1 ! f)
                             (as_quat E (the (pr_cam_R res) ! 1 ! f)) ''RDF''\<rparr>
            \<and> (\<forall>i < ?n.
                  ev_path (new_events st st' ! (f * Suc ?n + Suc i)) = phase_path ph i
                  \<and> ev_time (new_events st st' ! (f * Suc ?n + Suc i)) = Some f
                  \<and> is_geometry (ev_body (new_events st st' ! (f * Suc ?n + Suc i))))"
  proof (intro allI impI conjI)
    fix f assume f: "f < seq_len ds"
    from nth[OF f, of 0] show "new_events st st' ! (f * Suc ?n)
              = \<lparr>ev_path = ''world/camera'', ev_time = Some f,
                 ev_body = Rigid3 (the (pr_cam_t res) ! 1 ! f)
                             (as_quat E (the (pr_cam_R res) ! 1 ! f)) ''RDF''\<rparr>"
      by (simp add: frame_events_def camera_event_def)
  next
    fix f i assume f: "f < seq_len ds" and i: "i < ?n"
    from nth[OF f, of "Suc i"] i
    have e: "new_events st st' ! (f * Suc ?n + Suc i) = mesh_event E ds ph verts faces f i"
      by (simp add: frame_events_def)
    show "ev_path (new_events st st' ! (f * Suc ?n + Suc i)) = phase_path ph i"
      unfolding e by (simp add: mesh_event_def)
    show "ev_time (new_events st st' ! (f * Suc ?n + Suc i)) = Some f"
      unfolding e by (simp add: mesh_event_def)
    show "is_geometry (ev_body (new_events st st' ! (f * Suc ?n + Suc i)))"
      unfolding e by (simp add: mesh_event_def)
  qed
  from k0 k1 k2 k3 i0 i2 i3 pb len pos show ?thesis by blast
qed

theorem phase_pass_ordering_witness:
  "\<exists>s0' s1' s2' st'.
       log_input_frames ex_ds ex_rr = Inr s0'
     \<and> log_skeleton_2d ex_ds ex_rr = Inr s1'
     \<and> log_camera (as_quat ex_env) ex_ds ex_rr = Inr s2'
     \<and> log_phase_result ex_env () ex_ds (PyInt 0) ''motion_chunks'' ex_res ex_rr = Inr st'
     \<and> timeline_keys (new_events ex_rr s0') = [0, 1, 2]
     \<and> timeline_keys (new_events ex_rr s1') = [0, 1, 2, 0, 1, 2]
     \<and> timeline_keys (new_events ex_rr s2') = [0, 0, 1, 1, 2, 2]
     \<and> timeline_keys (new_events ex_rr st') = [0, 0, 0, 1, 1, 1, 2, 2, 2]
     \<and> new_events ex_rr st' ! 3
         = \<lparr>ev_path = ''world/camera'', ev_time = Some 1, ev_body = Rigid3 111 1211 ''RDF''\<rparr>
     \<and> ev_path (new_events ex_rr st' ! 5) = phase_path ''motion_chunks'' 1
     \<and> ev_time (new_events ex_rr st' ! 5) = Some 1
     \<and> pose_before_geometry (new_events ex_rr st')"
proof -
  from log_input_frames_succeeds obtain s0' where a: "log_input_frames ex_ds ex_rr = Inr s0'" ..
  from ex_skeleton_run obtain s1' where b: "log_skeleton_2d ex_ds ex_rr = Inr s1'" ..
  from ex_camera_run obtain s2' where c: "log_camera (as_quat ex_env) ex_ds ex_rr = Inr s2'" ..
  from ex_phase_run obtain st' where
    d: "log_phase_result ex_env () ex_ds (PyInt 0) ''motion_chunks'' ex_res ex_rr = Inr st'" ..
  note t = phase_pass_ordering[OF a b c d]
  have f: "1 < seq_len ex_ds" and i: "1 < length (track_ids ex_ds)" by (simp_all add: ex_ds_def)
  have k0: "timeline_keys (new_events ex_rr s0') = [0, 1, 2]"
    using t by (simp add: ex_ds_def upt_conv_Cons)
  have k1: "timeline_keys (new_events ex_rr s1') = [0, 1, 2, 0, 1, 2]"
    using t by (simp add: ex_ds_def upt_conv_Cons)
  have k2: "timeline_keys (new_events ex_rr s2') = [0, 0, 1, 1, 2, 2]"
    using t by (simp add: ex_ds_def upt_conv_Cons)
  have k3: "timeline_keys (new_events ex_rr st') = [0, 0, 0, 1, 1, 1, 2, 2, 2]"
    using t by (simp add: ex_ds_def upt_conv_Cons)
  from t have pos: "\<forall>f < seq_len ex_ds.
            new_events ex_rr st' ! (f * Suc (length (track_ids ex_ds)))
              = \<lparr>ev_path = ''world/camera'', ev_time = Some f,
                 ev_body = Rigid3 (the (pr_cam_t ex_res) ! 1 ! f)
                             (as_quat ex_env (the (pr_cam_R ex_res) ! 1 ! f)) ''RDF''\<rparr>
            \<and> (\<forall>i < length (track_ids ex_ds).
                  ev_path (new_events ex_rr st' ! (f * Suc (length (track_ids ex_ds)) + Suc i))
                    = phase_path ''motion_chunks'' i
                  \<and> ev_time (new_events ex_rr st' ! (f * Suc (length (track_ids ex_ds)) + Suc i))
                    = Some f
                  \<and> is_geometry
                      (ev_body (new_events ex_rr st' ! (f * Suc (length (track_ids ex_ds)) + Suc i))))"
    and pb: "pose_before_geometry (new_events ex_rr st')"
    by blast+
  have n: "Suc (length (track_ids ex_ds)) = 3" by (simp add: ex_ds_def)
  from pos[rule_format, OF f]
  have p3: "new_events ex_rr st' ! 3
         = \<lparr>ev_path = ''world/camera'', ev_time = Some 1, ev_body = Rigid3 111 1211 ''RDF''\<rparr>"
    unfolding n by (simp add: ex_res_def ex_env_def)
  from pos[rule_format, OF f, THEN conjunct2, rule_format, OF i]
  have p5: "ev_path (new_events ex_rr st' ! 5) = phase_path ''motion_chunks'' 1
          \<and> ev_time (new_events ex_rr st' ! 5) = Some 1"
    unfolding n by simp
  from a b c d k0 k1 k2 k3 p3 p5 pb show ?thesis by blast
qed

end
